theory Spec2Isabelle
  imports Main "HOL-Library.List_Lexorder" "HOL-Library.Char_ord"
begin

section \<open>JavaScript string and path primitives\<close>

text \<open>
  Strings are lists of 8-bit characters. Among those, the characters that the regular
  expression atom \<open>.\<close> refuses are line feed and carriage return, and the characters
  that \<open>String.prototype.trim\<close> strips are tab, line feed, vertical tab, form feed,
  carriage return, space and the no-break space.
\<close>

definition startsWith :: "string \<Rightarrow> string \<Rightarrow> bool" where
  "startsWith s p = (take (length p) s = p)"

fun str_includes :: "string \<Rightarrow> string \<Rightarrow> bool" where
  "str_includes [] p = (p = [])"
| "str_includes (c # cs) p = (startsWith (c # cs) p \<or> str_includes cs p)"

definition line_terminator :: "char \<Rightarrow> bool" where
  "line_terminator c = (c = CHR 0x0A \<or> c = CHR 0x0D)"

definition js_whitespace :: "char \<Rightarrow> bool" where
  "js_whitespace c =
     (c = CHR 0x09 \<or> c = CHR 0x0A \<or> c = CHR 0x0B \<or> c = CHR 0x0C \<or> c = CHR 0x0D
      \<or> c = CHR 0x20 \<or> c = CHR 0xA0)"

definition trim :: "string \<Rightarrow> string" where
  "trim s = rev (dropWhile js_whitespace (rev (dropWhile js_whitespace s)))"

definition is_digit :: "char \<Rightarrow> bool" where
  "is_digit c = (c \<in> set ''0123456789'')"

text \<open>
  \<open>path.basename\<close> of Node's POSIX path module, called with one argument: trailing
  slashes are dropped, and what follows the last remaining slash is returned.
\<close>

definition basename :: "string \<Rightarrow> string" where
  "basename p =
     rev (takeWhile (\<lambda>c. c \<noteq> CHR ''/'') (dropWhile (\<lambda>c. c = CHR ''/'') (rev p)))"

section \<open>The environment of the process\<close>

text \<open>
  What the code takes from its runtime, its libraries and the database engine is a
  parameter of the model:
  \<^item> \<open>url_pathname u\<close> is \<open>new URL(u).pathname\<close>, and \<open>None\<close> when the constructor throws;
  \<^item> \<open>base_url\<close> is \<open>process.env.BASE_URL || `http://localhost:${process.env.PORT || 3000}`\<close>;
  \<^item> \<open>unlink_fails p\<close> tells whether \<open>fs.unlink\<close> reports an error for the existing path \<open>p\<close>;
  \<^item> \<open>production\<close> is \<open>process.env.NODE_ENV === "production"\<close>;
  \<^item> \<open>date_parse s\<close> is \<open>new Date(s)\<close> read through its UTC getters, \<open>date_parse_local s\<close>
    the same date read through its local-time getters; \<open>None\<close> is an invalid date;
  \<^item> \<open>sql_like v p\<close> is the engine's \<open>v LIKE p\<close>, and \<open>sql_number s\<close> the number the engine
    compares an integer column with when the bound parameter is the text \<open>s\<close>;
  \<^item> \<open>isISO8601\<close> is the validator of that name.
\<close>

datatype upload_dir = UploadsDir | CoverImagesDir | NewsImagesDir

type_synonym file_path = "upload_dir \<times> string"

record date_fields =
  fullYear :: int
  month :: nat
  date :: nat
  hours :: nat
  minutes :: nat
  seconds :: nat

record env =
  url_pathname :: "string \<Rightarrow> string option"
  base_url :: string
  unlink_fails :: "file_path \<Rightarrow> bool"
  production :: bool
  date_parse :: "string \<Rightarrow> date_fields option"
  date_parse_local :: "string \<Rightarrow> date_fields option"
  sql_like :: "string \<Rightarrow> string \<Rightarrow> bool"
  sql_number :: "string \<Rightarrow> int"
  isISO8601 :: "string \<Rightarrow> bool"

section \<open>Media path resolver (config/upload.js)\<close>

datatype fileType = Cover | News | OtherType

definition stripPrefix :: "string \<Rightarrow> string \<Rightarrow> string option" where
  "stripPrefix p s = (if startsWith s p then Some (drop (length p) s) else None)"

text \<open>
  The regular expression \<open>/\/(?:public\/)?uploads\/(cover-images|news-images)\/(.+)$/\<close>
  of \<open>getRelativePath\<close>. \<open>uploads_match_here\<close> is an attempt anchored at the head of
  the string; \<open>uploads_match\<close> is the leftmost successful attempt, as \<open>String.match\<close>
  finds it. The result is the pair of the two capture groups.
\<close>

definition uploads_match_here :: "string \<Rightarrow> (string \<times> string) option" where
  "uploads_match_here s =
     (case (case stripPrefix ''/public/uploads/'' s of
              Some t \<Rightarrow> Some t
            | None \<Rightarrow> stripPrefix ''/uploads/'' s) of
        None \<Rightarrow> None
      | Some t \<Rightarrow>
          (case (case stripPrefix ''cover-images/'' t of
                   Some r \<Rightarrow> Some (''cover-images'', r)
                 | None \<Rightarrow>
                     (case stripPrefix ''news-images/'' t of
                        Some r \<Rightarrow> Some (''news-images'', r)
                      | None \<Rightarrow> None)) of
             None \<Rightarrow> None
           | Some (d, r) \<Rightarrow>
               if r \<noteq> [] \<and> list_all (\<lambda>c. \<not> line_terminator c) r then Some (d, r)
               else None))"

fun uploads_match :: "string \<Rightarrow> (string \<times> string) option" where
  "uploads_match [] = None"
| "uploads_match (c # cs) =
     (case uploads_match_here (c # cs) of
        Some m \<Rightarrow> Some m
      | None \<Rightarrow> uploads_match cs)"

definition is_http_url :: "string \<Rightarrow> bool" where
  "is_http_url s = (startsWith s ''http://'' \<or> startsWith s ''https://'')"

definition is_canonical_path :: "string \<Rightarrow> bool" where
  "is_canonical_path s = (startsWith s ''/cover-images/'' \<or> startsWith s ''/news-images/'')"

text \<open>
  \<open>getRelativePath(filePath, fileType)\<close>. The argument is a string or \<open>null\<close>
  (\<open>None\<close>); the empty string is falsy and gives \<open>null\<close> as well.
\<close>

definition getRelativePath :: "env \<Rightarrow> string option \<Rightarrow> fileType \<Rightarrow> string option" where
  "getRelativePath E filePath ft =
     (case filePath of
        None \<Rightarrow> None
      | Some fp \<Rightarrow>
          if fp = [] then None
          else if is_http_url fp then
            (case url_pathname E fp of
               None \<Rightarrow> Some fp
             | Some urlPath \<Rightarrow>
                 (case uploads_match urlPath of
                    Some (d, f) \<Rightarrow> Some (''/'' @ d @ ''/'' @ f)
                  | None \<Rightarrow> Some fp))
          else if is_canonical_path fp then Some fp
          else
            (case ft of
               Cover \<Rightarrow> Some (''/cover-images/'' @ basename fp)
             | News \<Rightarrow> Some (''/news-images/'' @ basename fp)
             | OtherType \<Rightarrow> Some fp))"

text \<open>
  A stand-in for \<open>new URL(u).pathname\<close> on plain URLs
  \<open>scheme://authority/path?query#fragment\<close> without escapes, dot segments or
  backslashes: the path runs from the first slash after the authority to the first
  \<open>?\<close> or \<open>#\<close>, an empty path reads \<open>/\<close>, and an empty authority is an invalid URL.
  It is used where a concrete input is evaluated.
\<close>

definition plain_url_pathname :: "string \<Rightarrow> string option" where
  "plain_url_pathname u =
     (case (case stripPrefix ''http://'' u of
              Some r \<Rightarrow> Some r
            | None \<Rightarrow> stripPrefix ''https://'' u) of
        None \<Rightarrow> None
      | Some r \<Rightarrow>
          (let stop = (\<lambda>c. c = CHR ''/'' \<or> c = CHR ''?'' \<or> c = CHR ''#'');
               authority = takeWhile (\<lambda>c. \<not> stop c) r;
               rest = dropWhile (\<lambda>c. \<not> stop c) r;
               p = takeWhile (\<lambda>c. c \<noteq> CHR ''?'' \<and> c \<noteq> CHR ''#'') rest
           in if authority = [] then None
              else if p = [] then Some ''/''
              else Some p))"

text \<open>
  \<open>extractFilenameFromUrl(url)\<close>: the file name of a canonical path or of a URL's path;
  any other string is taken for a file name and returned as it is. \<open>None\<close> is \<open>null\<close>.
\<close>

definition extractFilenameFromUrl :: "env \<Rightarrow> string option \<Rightarrow> string option" where
  "extractFilenameFromUrl E url =
     (case url of
        None \<Rightarrow> None
      | Some u \<Rightarrow>
          if u = [] then None
          else if is_canonical_path u then Some (basename u)
          else if \<not> startsWith u ''http://'' \<and> \<not> startsWith u ''https://'' then Some u
          else
            (case url_pathname E u of
               None \<Rightarrow> None
             | Some urlPath \<Rightarrow> Some (basename urlPath)))"

definition dir_of_type :: "fileType \<Rightarrow> upload_dir" where
  "dir_of_type ft = (case ft of Cover \<Rightarrow> CoverImagesDir | News \<Rightarrow> NewsImagesDir | OtherType \<Rightarrow> UploadsDir)"

text \<open>
  \<open>deleteFile(fileUrl, fileType)\<close>. A path of the file system is kept as the pair of
  arguments that the code hands to \<open>path.join\<close>: the directory and the file name.
  The file system is the list of the paths that exist. \<open>deleteFile_target\<close> is the
  part of the function before the file system is touched: the path it is about to
  look up, or \<open>None\<close> when the promise resolves \<open>false\<close> without any access.
\<close>

datatype promise_outcome = Resolved bool | Rejected

definition deleteFile_target :: "env \<Rightarrow> string option \<Rightarrow> fileType \<Rightarrow> file_path option" where
  "deleteFile_target E fileUrl ft =
     (case fileUrl of
        None \<Rightarrow> None
      | Some u \<Rightarrow>
          if u = [] then None
          else if (startsWith u ''http://'' \<or> startsWith u ''https://'')
                  \<and> \<not> str_includes u (base_url E) \<and> \<not> str_includes u ''localhost''
          then None
          else
            (case extractFilenameFromUrl E (Some u) of
               None \<Rightarrow> None
             | Some filename \<Rightarrow>
                 if filename = [] then None else Some (dir_of_type ft, filename)))"

definition deleteFile ::
  "env \<Rightarrow> string option \<Rightarrow> fileType \<Rightarrow> file_path list \<Rightarrow> promise_outcome \<times> file_path list" where
  "deleteFile E fileUrl ft fs =
     (case deleteFile_target E fileUrl ft of
        None \<Rightarrow> (Resolved False, fs)
      | Some p \<Rightarrow>
          if p \<in> set fs then
            (if unlink_fails E p then (Rejected, fs) else (Resolved True, removeAll p fs))
          else (Resolved False, fs))"

text \<open>
  \<open>deleteFiles(fileUrls, fileType)\<close> starts one \<open>deleteFile\<close> per URL and waits with
  \<open>Promise.allSettled\<close>, so no outcome is looked at. The deletions are run here one
  after the other; a path named twice is gone after the first of them either way.
\<close>

definition deleteFiles :: "env \<Rightarrow> string list \<Rightarrow> fileType \<Rightarrow> file_path list \<Rightarrow> file_path list" where
  "deleteFiles E fileUrls ft fs = fold (\<lambda>u fs'. snd (deleteFile E (Some u) ft fs')) fileUrls fs"

section \<open>Numbers and their text\<close>

text \<open>
  \<open>parseInt(string)\<close> with no radix: leading white space is skipped, a sign is read,
  a prefix \<open>0x\<close> selects base 16, and the longest run of digits is the value; no digit
  at all is \<open>NaN\<close> (\<open>None\<close>). \<open>undefined\<close> (\<open>None\<close>) reads as the text
  \<open>undefined\<close> and is \<open>NaN\<close> too. Numbers are unbounded integers.
\<close>

definition digit_value :: "nat \<Rightarrow> char \<Rightarrow> nat option" where
  "digit_value radix c =
     (let n = of_char c :: nat;
          v = (if 48 \<le> n \<and> n \<le> 57 then Some (n - 48)
               else if 97 \<le> n \<and> n \<le> 122 then Some (n - 87)
               else if 65 \<le> n \<and> n \<le> 90 then Some (n - 55)
               else None)
      in case v of None \<Rightarrow> None | Some d \<Rightarrow> if d < radix then Some d else None)"

definition digits_value :: "nat \<Rightarrow> string \<Rightarrow> nat" where
  "digits_value radix ds =
     foldl (\<lambda>a c. case digit_value radix c of Some d \<Rightarrow> a * radix + d | None \<Rightarrow> a) 0 ds"

definition parse_signed :: "bool \<Rightarrow> string \<Rightarrow> int option" where
  "parse_signed detect_hex str =
     (let s = dropWhile js_whitespace str;
          neg = startsWith s ''-'';
          s1 = (if startsWith s ''-'' \<or> startsWith s ''+'' then drop 1 s else s);
          hex = detect_hex \<and> (startsWith s1 ''0x'' \<or> startsWith s1 ''0X'');
          radix = (if hex then 16 else 10);
          s2 = (if hex then drop 2 s1 else s1);
          ds = takeWhile (\<lambda>c. digit_value radix c \<noteq> None) s2
      in if ds = [] then None
         else Some ((if neg then - 1 else 1) * int (digits_value radix ds)))"

definition parseInt :: "string option \<Rightarrow> int option" where
  "parseInt v = (case v of None \<Rightarrow> None | Some str \<Rightarrow> parse_signed True str)"

text \<open>\<open>parseInt(string, 10)\<close>: the radix is given, so no prefix is looked for.\<close>

definition parseInt10 :: "string \<Rightarrow> int option" where
  "parseInt10 str = parse_signed False str"

text \<open>\<open>n || d\<close> for a number \<open>n\<close>: \<open>NaN\<close> and \<open>0\<close> are falsy.\<close>

definition or_default :: "int option \<Rightarrow> int \<Rightarrow> int" where
  "or_default v d = (case v of None \<Rightarrow> d | Some n \<Rightarrow> if n = 0 then d else n)"

text \<open>The decimal text of an integer, as a template literal prints it.\<close>

definition digit_char :: "nat \<Rightarrow> char" where
  "digit_char n = ''0123456789'' ! (n mod 10)"

function string_of_nat :: "nat \<Rightarrow> string" where
  "string_of_nat n = (if n < 10 then [digit_char n] else string_of_nat (n div 10) @ [digit_char n])"
  by pat_completeness auto
termination
  by (relation "measure id") auto

declare string_of_nat.simps [simp del]

definition string_of_int :: "int \<Rightarrow> string" where
  "string_of_int i = (if i < 0 then CHR ''-'' # string_of_nat (nat (- i)) else string_of_nat (nat i))"

text \<open>\<open>String(n).padStart(2, "0")\<close> for a number that is not negative.\<close>

definition pad2 :: "nat \<Rightarrow> string" where
  "pad2 n = (let s = string_of_nat n in if length s < 2 then CHR ''0'' # s else s)"

section \<open>Datetime conversion (models/NewsAndEvents.js)\<close>

text \<open>
  The values a JavaScript caller can hand to the conversion. An error is the message
  of the \<open>Error\<close> that is thrown.
\<close>

datatype jsval = JUndefined | JNull | JBoolean bool | JNumber int | JString string | JObject

definition typeof :: "jsval \<Rightarrow> string" where
  "typeof v =
     (case v of
        JUndefined \<Rightarrow> ''undefined''
      | JNull \<Rightarrow> ''object''
      | JBoolean b \<Rightarrow> ''boolean''
      | JNumber n \<Rightarrow> ''number''
      | JString s \<Rightarrow> ''string''
      | JObject \<Rightarrow> ''object'')"

definition js_to_string :: "jsval \<Rightarrow> string" where
  "js_to_string v =
     (case v of
        JUndefined \<Rightarrow> ''undefined''
      | JNull \<Rightarrow> ''null''
      | JBoolean b \<Rightarrow> (if b then ''true'' else ''false'')
      | JNumber n \<Rightarrow> string_of_int n
      | JString s \<Rightarrow> s
      | JObject \<Rightarrow> ''[object Object]'')"

text \<open>The regular expression \<open>/^\d{4}-\d{2}-\d{2} \d{2}:\d{2}:\d{2}$/\<close>.\<close>

definition is_mysql_datetime :: "string \<Rightarrow> bool" where
  "is_mysql_datetime s =
     list_all2 (\<lambda>p c. if p = CHR ''d'' then is_digit c else c = p) ''dddd-dd-dd dd:dd:dd'' s"

definition format_fields :: "date_fields \<Rightarrow> string" where
  "format_fields d =
     string_of_int (fullYear d) @ ''-'' @ pad2 (month d + 1) @ ''-'' @ pad2 (date d) @ '' ''
     @ pad2 (hours d) @ '':'' @ pad2 (minutes d) @ '':'' @ pad2 (seconds d)"

text \<open>
  The repository holds two copies of the model file of news and events. This is
  \<open>formatDateTimeForMySQL\<close> of the copy that validates its argument. The inner
  \<open>try\<close> block is \<open>convert_date\<close>; its errors are wrapped by the \<open>catch\<close>.
\<close>

definition convert_date :: "env \<Rightarrow> string \<Rightarrow> string + string" where
  "convert_date E trimmed =
     (case date_parse E trimmed of
        None \<Rightarrow> Inl (''Invalid date: '' @ trimmed)
      | Some d \<Rightarrow>
          (let formatted = format_fields d
           in if \<not> is_mysql_datetime formatted
              then Inl (''Failed to format datetime correctly: '' @ formatted)
              else Inr formatted))"

definition formatDateTimeForMySQL :: "env \<Rightarrow> jsval \<Rightarrow> string + jsval" where
  "formatDateTimeForMySQL E dateTimeString =
     (case dateTimeString of
        JNull \<Rightarrow> Inr JNull
      | JUndefined \<Rightarrow> Inr JUndefined
      | JString s \<Rightarrow>
          (let trimmed = trim s
           in if trimmed = [] then Inl ''Empty datetime string is not allowed''
              else if is_mysql_datetime trimmed then Inr (JString trimmed)
              else
                (case convert_date E trimmed of
                   Inl msg \<Rightarrow> Inl (''Invalid datetime format: '' @ trimmed @ ''. '' @ msg)
                 | Inr formatted \<Rightarrow> Inr (JString formatted)))
      | _ \<Rightarrow>
          Inl (''Expected string, got '' @ typeof dateTimeString @ '': ''
               @ js_to_string dateTimeString))"

text \<open>
  The older copy of the function, in models/NewsAndEvents.js, the file that the
  controller loads: a falsy argument is returned as it is, and the date is read in
  local time. Its argument is a string or \<open>null\<close>.
\<close>

definition formatDateTimeForMySQL_legacy :: "env \<Rightarrow> string option \<Rightarrow> string + string option" where
  "formatDateTimeForMySQL_legacy E dateTimeString =
     (case dateTimeString of
        None \<Rightarrow> Inr None
      | Some s \<Rightarrow>
          if s = [] then Inr (Some s)
          else
            (case date_parse_local E s of
               None \<Rightarrow> Inl (''Invalid datetime format: '' @ s)
             | Some d \<Rightarrow> Inr (Some (format_fields d))))"

section \<open>The database\<close>

text \<open>
  The tables \<open>news_and_events\<close>, \<open>news_and_events_images\<close> and \<open>categories\<close>. Rows
  are listed in the order of their insertion; \<open>next_image_id\<close> is the AUTO\_INCREMENT
  counter of the image table. The columns \<open>created_by\<close>, \<open>created_at\<close> and
  \<open>updated_at\<close> and the joined names of category and author take no part in what
  follows and are left out. A \<open>date_time\<close> is its text \<open>YYYY-MM-DD HH:MM:SS\<close>, which
  the order on strings compares as the engine compares the dates.
\<close>

record news_row =
  news_id :: nat
  news_category_id :: nat
  news_title :: string
  news_description :: "string option"
  news_location :: "string option"
  news_cover_image :: "string option"
  news_date_time :: string
  news_status :: string

record image_row =
  image_id :: nat
  image_news_id :: nat
  image_url :: string
  image_order :: nat

record database =
  news_rows :: "news_row list"
  image_rows :: "image_row list"
  next_image_id :: nat
  category_ids :: "nat list"

text \<open>
  A statement handed to \<open>db.execute(query, params)\<close>: the query text and the bound
  parameters, as the code builds them, and beside them what the text means: the
  conditions of its WHERE clause and its LIMIT and OFFSET.
\<close>

datatype sql_param = PInt int | PStr string

datatype clause =
    CategoryEq int
  | CategoryEqRaw string
  | StatusEq string
  | SearchLike string
  | DateTimeGe string
  | DateTimeLe string

record statement =
  st_text :: string
  st_params :: "sql_param list"
  st_where :: "clause list"
  st_limit :: "int option"
  st_offset :: "int option"

definition add_where :: "string \<Rightarrow> sql_param list \<Rightarrow> clause \<Rightarrow> statement \<Rightarrow> statement" where
  "add_where txt ps c st =
     st\<lparr>st_text := st_text st @ txt, st_params := st_params st @ ps, st_where := st_where st @ [c]\<rparr>"

definition add_text :: "string \<Rightarrow> statement \<Rightarrow> statement" where
  "add_text txt st = st\<lparr>st_text := st_text st @ txt\<rparr>"

definition like_any :: "env \<Rightarrow> string option \<Rightarrow> string \<Rightarrow> bool" where
  "like_any E v p = (case v of None \<Rightarrow> False | Some s \<Rightarrow> sql_like E s p)"

definition clause_holds :: "env \<Rightarrow> clause \<Rightarrow> news_row \<Rightarrow> bool" where
  "clause_holds E c r =
     (case c of
        CategoryEq n \<Rightarrow> int (news_category_id r) = n
      | CategoryEqRaw s \<Rightarrow> int (news_category_id r) = sql_number E s
      | StatusEq s \<Rightarrow> news_status r = s
      | SearchLike p \<Rightarrow>
          sql_like E (news_title r) p \<or> like_any E (news_description r) p
          \<or> like_any E (news_location r) p
      | DateTimeGe d \<Rightarrow> d \<le> news_date_time r
      | DateTimeLe d \<Rightarrow> news_date_time r \<le> d)"

definition matching_rows :: "env \<Rightarrow> news_row list \<Rightarrow> statement \<Rightarrow> news_row list" where
  "matching_rows E rows st = filter (\<lambda>r. list_all (\<lambda>c. clause_holds E c r) (st_where st)) rows"

text \<open>
  The rows a listing statement returns: \<open>ORDER BY n.date_time DESC, n.created_at DESC\<close>,
  then OFFSET and LIMIT.
\<close>

definition run_select :: "env \<Rightarrow> news_row list \<Rightarrow> statement \<Rightarrow> news_row list" where
  "run_select E rows st =
     (let ordered = rev (sort_key news_date_time (matching_rows E rows st));
          skipped = (case st_offset st of None \<Rightarrow> ordered | Some off \<Rightarrow> drop (nat off) ordered)
      in case st_limit st of None \<Rightarrow> skipped | Some l \<Rightarrow> take (nat l) skipped)"

definition run_count :: "env \<Rightarrow> news_row list \<Rightarrow> statement \<Rightarrow> int" where
  "run_count E rows st = int (length (matching_rows E rows st))"

section \<open>Relational access layer: NewsAndEvents\<close>

record find_filters =
  f_category_id :: "string option"
  f_status :: "string option"
  f_search :: "string option"
  f_date_from :: "string option"
  f_date_to :: "string option"
  f_limit :: "int option"
  f_offset :: "int option"

definition select_head :: string where
  "select_head =
     ''SELECT n.*, c.name as category_name, c.slug as category_slug,\<newline>                 a.name as created_by_name\<newline>                 FROM news_and_events n\<newline>                 LEFT JOIN categories c ON n.category_id = c.id\<newline>                 LEFT JOIN admins a ON n.created_by = a.id\<newline>                 WHERE 1=1''"

definition empty_statement :: "string \<Rightarrow> statement" where
  "empty_statement txt =
     \<lparr>st_text = txt, st_params = [], st_where = [], st_limit = None, st_offset = None\<rparr>"

text \<open>
  \<open>findAll(filters)\<close> of the model file that validates its filters, one definition for
  each block of the function. A filter that is \<open>undefined\<close> is \<open>None\<close>; the text
  filters are strings and the numeric ones integers, so the branches that throw on
  another type are not written, and no parameter is ever \<open>undefined\<close> or \<open>null\<close>.
\<close>

definition with_category :: "find_filters \<Rightarrow> statement \<Rightarrow> string + statement" where
  "with_category F st =
     (case f_category_id F of
        None \<Rightarrow> Inr st
      | Some c \<Rightarrow>
          if c = [] then Inr st
          else
            (case parseInt10 c of
               None \<Rightarrow> Inl (''Invalid category_id: '' @ c)
             | Some categoryId \<Rightarrow>
                 Inr (add_where '' AND n.category_id = ?'' [PInt categoryId]
                        (CategoryEq categoryId) st)))"

definition with_status :: "find_filters \<Rightarrow> statement \<Rightarrow> statement" where
  "with_status F st =
     (case f_status F of
        None \<Rightarrow> st
      | Some s \<Rightarrow>
          if s = [] then st
          else add_where '' AND n.status = ?'' [PStr s] (StatusEq s) st)"

definition with_search :: "find_filters \<Rightarrow> statement \<Rightarrow> statement" where
  "with_search F st =
     (case f_search F of
        None \<Rightarrow> st
      | Some s \<Rightarrow>
          if s = [] then st
          else
            (let searchTerm = ''%'' @ trim s @ ''%''
             in add_where '' AND (n.title LIKE ? OR n.description LIKE ? OR n.location LIKE ?)''
                  [PStr searchTerm, PStr searchTerm, PStr searchTerm] (SearchLike searchTerm) st))"

definition with_date ::
  "env \<Rightarrow> string \<Rightarrow> string \<Rightarrow> (string \<Rightarrow> clause) \<Rightarrow> string option \<Rightarrow> statement \<Rightarrow> string + statement" where
  "with_date E name txt mk v st =
     (case v of
        None \<Rightarrow> Inr st
      | Some s \<Rightarrow>
          if s = [] \<or> trim s = [] then Inr st
          else
            (case (case formatDateTimeForMySQL E (JString s) of
                     Inl msg \<Rightarrow> Inl msg
                   | Inr (JString formatted) \<Rightarrow>
                       if formatted = []
                       then Inl (''formatDateTimeForMySQL returned invalid value: '' @ formatted)
                       else Inr formatted
                   | Inr other \<Rightarrow>
                       Inl (''formatDateTimeForMySQL returned invalid value: ''
                            @ js_to_string other)) of
               Inl msg \<Rightarrow> Inl (''Invalid '' @ name @ '' format: '' @ s @ ''. '' @ msg)
             | Inr formatted \<Rightarrow> Inr (add_where txt [PStr formatted] (mk formatted) st)))"

definition with_pagination :: "find_filters \<Rightarrow> statement \<Rightarrow> string + statement" where
  "with_pagination F st =
     (case f_limit F of
        None \<Rightarrow> Inr st
      | Some limit \<Rightarrow>
          if limit < 1 then Inl (''Invalid limit value: '' @ string_of_int limit)
          else
            (case f_offset F of
               Some offset \<Rightarrow>
                 if offset < 0 then Inl (''Invalid offset value: '' @ string_of_int offset)
                 else
                   Inr (st\<lparr>st_text := st_text st @ '' LIMIT '' @ string_of_int limit
                                         @ '' OFFSET '' @ string_of_int offset,
                           st_limit := Some limit, st_offset := Some offset\<rparr>)
             | None \<Rightarrow>
                 Inr (st\<lparr>st_text := st_text st @ '' LIMIT '' @ string_of_int limit,
                         st_limit := Some limit\<rparr>)))"

definition check_placeholders :: "statement \<Rightarrow> string + statement" where
  "check_placeholders st =
     (let placeholderCount = count_list (st_text st) (CHR ''?'')
      in if placeholderCount \<noteq> length (st_params st)
         then Inl (''Parameter count mismatch: '' @ string_of_nat placeholderCount
                   @ '' placeholders but '' @ string_of_nat (length (st_params st))
                   @ '' parameters'')
         else Inr st)"

definition and_then :: "'e + 'a \<Rightarrow> ('a \<Rightarrow> 'e + 'b) \<Rightarrow> 'e + 'b" where
  "and_then r f = (case r of Inl e \<Rightarrow> Inl e | Inr a \<Rightarrow> f a)"

text \<open>
  The function up to its ORDER BY clause is \<open>build_where\<close>; the pagination and the
  two checks of the parameter list follow.
\<close>

definition build_where :: "env \<Rightarrow> find_filters \<Rightarrow> string + statement" where
  "build_where E F =
     and_then (with_category F (empty_statement select_head)) (\<lambda>st1.
     and_then (with_date E ''date_from'' '' AND n.date_time >= ?'' DateTimeGe (f_date_from F)
                 (with_search F (with_status F st1))) (\<lambda>st2.
     and_then (with_date E ''date_to'' '' AND n.date_time <= ?'' DateTimeLe (f_date_to F) st2) (\<lambda>st3.
     Inr (add_text '' ORDER BY n.date_time DESC, n.created_at DESC'' st3))))"

definition findAll :: "env \<Rightarrow> find_filters \<Rightarrow> string + statement" where
  "findAll E F =
     and_then (build_where E F) (\<lambda>st.
     and_then (with_pagination F st) check_placeholders)"

text \<open>
  \<open>findAll(filters)\<close> of the older copy, models/NewsAndEvents.js, which is the one
  the controller calls: a filter is used when it is truthy, and the limit and the
  offset are pushed onto the parameter list.
\<close>

definition truthy_string :: "string option \<Rightarrow> string option" where
  "truthy_string v = (case v of None \<Rightarrow> None | Some s \<Rightarrow> if s = [] then None else Some s)"

definition truthy_number :: "int option \<Rightarrow> int option" where
  "truthy_number v = (case v of None \<Rightarrow> None | Some n \<Rightarrow> if n = 0 then None else Some n)"

definition with_date_legacy ::
  "env \<Rightarrow> string \<Rightarrow> (string \<Rightarrow> clause) \<Rightarrow> string option \<Rightarrow> statement \<Rightarrow> string + statement" where
  "with_date_legacy E txt mk v st =
     (case truthy_string v of
        None \<Rightarrow> Inr st
      | Some s \<Rightarrow>
          (case formatDateTimeForMySQL_legacy E (Some s) of
             Inl msg \<Rightarrow> Inl msg
           | Inr None \<Rightarrow> Inr st
           | Inr (Some formatted) \<Rightarrow> Inr (add_where txt [PStr formatted] (mk formatted) st)))"

definition with_pagination_legacy :: "find_filters \<Rightarrow> statement \<Rightarrow> statement" where
  "with_pagination_legacy F st =
     (case truthy_number (f_limit F) of
        None \<Rightarrow> st
      | Some limit \<Rightarrow>
          (let st1 = st\<lparr>st_text := st_text st @ '' LIMIT ?'',
                         st_params := st_params st @ [PInt limit],
                         st_limit := Some limit\<rparr>
           in case truthy_number (f_offset F) of
                None \<Rightarrow> st1
              | Some offset \<Rightarrow>
                  st1\<lparr>st_text := st_text st1 @ '' OFFSET ?'',
                      st_params := st_params st1 @ [PInt offset],
                      st_offset := Some offset\<rparr>))"

definition findAll_legacy :: "env \<Rightarrow> find_filters \<Rightarrow> string + statement" where
  "findAll_legacy E F =
     (let st1 = (case truthy_string (f_category_id F) of
                   None \<Rightarrow> empty_statement select_head
                 | Some c \<Rightarrow>
                     add_where '' AND n.category_id = ?'' [PStr c] (CategoryEqRaw c)
                       (empty_statement select_head));
          st2 = (case truthy_string (f_status F) of
                   None \<Rightarrow> st1
                 | Some s \<Rightarrow> add_where '' AND n.status = ?'' [PStr s] (StatusEq s) st1);
          st3 = (case truthy_string (f_search F) of
                   None \<Rightarrow> st2
                 | Some s \<Rightarrow>
                     (let searchTerm = ''%'' @ s @ ''%''
                      in add_where
                           '' AND (n.title LIKE ? OR n.description LIKE ? OR n.location LIKE ?)''
                           [PStr searchTerm, PStr searchTerm, PStr searchTerm]
                           (SearchLike searchTerm) st2))
      in and_then (with_date_legacy E '' AND n.date_time >= ?'' DateTimeGe (f_date_from F) st3) (\<lambda>st4.
         and_then (with_date_legacy E '' AND n.date_time <= ?'' DateTimeLe (f_date_to F) st4) (\<lambda>st5.
         Inr (with_pagination_legacy F
                (add_text '' ORDER BY n.date_time DESC, n.created_at DESC'' st5)))))"

text \<open>\<open>count(filters)\<close>, the same in both model files; the date filters are not used.\<close>

definition count_statement :: "find_filters \<Rightarrow> statement" where
  "count_statement F =
     (let st0 = empty_statement (''SELECT COUNT('' @ ''*) as total FROM news_and_events WHERE 1=1'');
          st1 = (case truthy_string (f_category_id F) of
                   None \<Rightarrow> st0
                 | Some c \<Rightarrow> add_where '' AND category_id = ?'' [PStr c] (CategoryEqRaw c) st0);
          st2 = (case truthy_string (f_status F) of
                   None \<Rightarrow> st1
                 | Some s \<Rightarrow> add_where '' AND status = ?'' [PStr s] (StatusEq s) st1)
      in case truthy_string (f_search F) of
           None \<Rightarrow> st2
         | Some s \<Rightarrow>
             (let searchTerm = ''%'' @ s @ ''%''
              in add_where '' AND (title LIKE ? OR description LIKE ? OR location LIKE ?)''
                   [PStr searchTerm, PStr searchTerm, PStr searchTerm] (SearchLike searchTerm) st2))"

definition findById :: "database \<Rightarrow> nat \<Rightarrow> news_row option" where
  "findById db i = find (\<lambda>r. news_id r = i) (news_rows db)"

section \<open>Relational access layer: NewsAndEventsImage\<close>

text \<open>
  \<open>findByNewsAndEventsId\<close>: \<open>ORDER BY image_order ASC, created_at ASC\<close>; rows of equal
  order come in the order of their insertion.
\<close>

definition findByNewsAndEventsId :: "database \<Rightarrow> nat \<Rightarrow> image_row list" where
  "findByNewsAndEventsId db i =
     sort_key image_order (filter (\<lambda>img. image_news_id img = i) (image_rows db))"

definition delete_image :: "database \<Rightarrow> nat \<Rightarrow> database" where
  "delete_image db i = db\<lparr>image_rows := filter (\<lambda>img. image_id img \<noteq> i) (image_rows db)\<rparr>"

definition deleteByNewsAndEventsId :: "database \<Rightarrow> nat \<Rightarrow> database" where
  "deleteByNewsAndEventsId db i =
     db\<lparr>image_rows := filter (\<lambda>img. image_news_id img \<noteq> i) (image_rows db)\<rparr>"

definition create_image :: "database \<Rightarrow> nat \<Rightarrow> string \<Rightarrow> nat \<Rightarrow> database" where
  "create_image db newsAndEventsId imageUrl imageOrder =
     db\<lparr>image_rows := image_rows db @
            [\<lparr>image_id = next_image_id db, image_news_id = newsAndEventsId,
              image_url = imageUrl, image_order = imageOrder\<rparr>],
        next_image_id := Suc (next_image_id db)\<rparr>"

text \<open>
  What a handler can catch: an \<open>Error\<close> with its message, the \<open>TypeError\<close> of a
  property read on \<open>null\<close> or of a call of something that is no function, and the
  engine's error with the code \<open>ER_NO_REFERENCED_ROW_2\<close>.
\<close>

datatype thrown = Error string | TypeError | NoReferencedRow

text \<open>
  \<open>createMultiple(newsAndEventsId, images)\<close>, from index \<open>i\<close> on. An entry is a string
  or \<open>null\<close>; reading \<open>image.url\<close> of \<open>null\<close> throws, and the rows created before stay.
  The result is the error, if any, and the database as it is left.
\<close>

fun createMultiple_from :: "nat \<Rightarrow> nat \<Rightarrow> string option list \<Rightarrow> database \<Rightarrow> thrown option \<times> database" where
  "createMultiple_from newsAndEventsId i [] db = (None, db)"
| "createMultiple_from newsAndEventsId i (None # images) db = (Some TypeError, db)"
| "createMultiple_from newsAndEventsId i (Some img # images) db =
     createMultiple_from newsAndEventsId (Suc i) images (create_image db newsAndEventsId img i)"

definition createMultiple :: "nat \<Rightarrow> string option list \<Rightarrow> database \<Rightarrow> thrown option \<times> database" where
  "createMultiple newsAndEventsId images db = createMultiple_from newsAndEventsId 0 images db"

section \<open>Responses\<close>

record item_view =
  view_row :: news_row
  view_cover_image :: "string option"
  view_images :: "string option list"

record pagination =
  currentPage :: int
  totalPages :: int
  totalItems :: int
  itemsPerPage :: int
  hasNext :: bool
  hasPrev :: bool
  nextPage :: "int option"
  prevPage :: "int option"

datatype payload =
    NoData
  | ListData "item_view list" pagination
  | ItemData item_view
  | ValidationErrors "string list"

datatype response =
  Response (resp_status: nat) (resp_success: bool) (resp_message: string) (resp_data: payload)

text \<open>The database calls a listing handler makes, in their order.\<close>

datatype db_call = CountCall statement | SelectCall statement | FindByIdCall nat | ImagesCall nat

definition thrown_message :: "thrown \<Rightarrow> string" where
  "thrown_message e = (case e of Error msg \<Rightarrow> msg | TypeError \<Rightarrow> ''TypeError'' | NoReferencedRow \<Rightarrow> ''ER_NO_REFERENCED_ROW_2'')"

text \<open>
  \<open>next(error)\<close> into \<open>errorHandler\<close>, for an error that carries no status code: the
  status is 500, and the message is hidden in production. The stack trace that is
  attached in development is not modelled.
\<close>

definition error_response :: "env \<Rightarrow> thrown \<Rightarrow> response" where
  "error_response E e =
     (let message = (if thrown_message e = [] then ''Internal server error'' else thrown_message e)
      in Response 500 False (if production E then ''Internal server error'' else message) NoData)"

definition view_of :: "env \<Rightarrow> database \<Rightarrow> news_row \<Rightarrow> item_view" where
  "view_of E db item =
     \<lparr>view_row = item,
      view_cover_image = getRelativePath E (news_cover_image item) Cover,
      view_images = map (\<lambda>img. getRelativePath E (Some (image_url img)) News)
                      (findByNewsAndEventsId db (news_id item))\<rparr>"

section \<open>Listing handlers (controllers/newsAndEventsController.js)\<close>

record list_query =
  q_page :: "string option"
  q_limit :: "string option"
  q_category_id :: "string option"
  q_status :: "string option"
  q_search :: "string option"
  q_date_from :: "string option"
  q_date_to :: "string option"

text \<open>
  What both listing handlers do once the pagination is accepted: the count, the
  page of rows, the images of each row, and the response. \<open>Math.ceil(totalCount / limit)\<close>
  is taken on integers. The controller requires \<open>../models/NewsAndEvents\<close>, so
  \<open>NewsAndEvents.findAll\<close> is \<open>findAll_legacy\<close>.
\<close>

definition listing ::
  "env \<Rightarrow> database \<Rightarrow> find_filters \<Rightarrow> int \<Rightarrow> int \<Rightarrow> string \<Rightarrow> response \<times> db_call list" where
  "listing E db filters page limit msg =
     (let count_st = count_statement filters;
          totalCount = run_count E (news_rows db) count_st;
          totalPages = - ((- totalCount) div limit);
          hasNext = (page < totalPages);
          hasPrev = (page > 1)
      in case findAll_legacy E filters of
           Inl err \<Rightarrow> (error_response E (Error err), [CountCall count_st])
         | Inr st \<Rightarrow>
             (let newsAndEvents = run_select E (news_rows db) st
              in (Response 200 True msg
                    (ListData (map (view_of E db) newsAndEvents)
                       \<lparr>currentPage = page, totalPages = totalPages, totalItems = totalCount,
                        itemsPerPage = limit, hasNext = hasNext, hasPrev = hasPrev,
                        nextPage = (if hasNext then Some (page + 1) else None),
                        prevPage = (if hasPrev then Some (page - 1) else None)\<rparr>),
                  [CountCall count_st, SelectCall st]
                  @ map (\<lambda>item. ImagesCall (news_id item)) newsAndEvents)))"

definition getAllNewsAndEvents :: "env \<Rightarrow> database \<Rightarrow> list_query \<Rightarrow> response \<times> db_call list" where
  "getAllNewsAndEvents E db q =
     (let page = or_default (parseInt (q_page q)) 1;
          limit = or_default (parseInt (q_limit q)) 10;
          offset = (page - 1) * limit
      in if page < 1 then (Response 400 False ''Page must be greater than 0'' NoData, [])
         else if limit < 1 \<or> limit > 100
         then (Response 400 False ''Limit must be between 1 and 100'' NoData, [])
         else
           listing E db
             \<lparr>f_category_id = q_category_id q, f_status = q_status q, f_search = q_search q,
              f_date_from = q_date_from q, f_date_to = q_date_to q,
              f_limit = Some limit, f_offset = Some offset\<rparr>
             page limit ''News and events retrieved successfully'')"

definition getActiveNewsAndEvents :: "env \<Rightarrow> database \<Rightarrow> list_query \<Rightarrow> response \<times> db_call list" where
  "getActiveNewsAndEvents E db q =
     (let page = or_default (parseInt (q_page q)) 1;
          limit = or_default (parseInt (q_limit q)) 10;
          offset = (page - 1) * limit
      in if page < 1 then (Response 400 False ''Page must be greater than 0'' NoData, [])
         else if limit < 1 \<or> limit > 100
         then (Response 400 False ''Limit must be between 1 and 100'' NoData, [])
         else
           listing E db
             \<lparr>f_category_id = q_category_id q, f_status = Some ''active'', f_search = q_search q,
              f_date_from = q_date_from q, f_date_to = q_date_to q,
              f_limit = Some limit, f_offset = Some offset\<rparr>
             page limit ''Active news and events retrieved successfully'')"

definition getActiveNewsAndEventsById :: "env \<Rightarrow> database \<Rightarrow> nat \<Rightarrow> response \<times> db_call list" where
  "getActiveNewsAndEventsById E db i =
     (case findById db i of
        None \<Rightarrow> (Response 404 False ''News and events not found'' NoData, [FindByIdCall i])
      | Some newsAndEvents \<Rightarrow>
          if news_status newsAndEvents \<noteq> ''active''
          then (Response 404 False ''News and events not found'' NoData, [FindByIdCall i])
          else (Response 200 True ''Active news and events retrieved successfully''
                  (ItemData (view_of E db newsAndEvents)),
                [FindByIdCall i, ImagesCall i]))"

section \<open>Update of an item (models/NewsAndEvents.js)\<close>

text \<open>
  A field of the request body that may be absent, \<open>null\<close> or a string.
\<close>

datatype cover_field = CoverUndefined | CoverNull | CoverString string

record update_data =
  u_category_id :: "nat option"
  u_title :: "string option"
  u_description :: "string option"
  u_location :: "string option"
  u_cover_image :: cover_field
  u_date_time :: "string option"
  u_status :: "string option"

definition cover_column :: "cover_field \<Rightarrow> string option \<Rightarrow> string option" where
  "cover_column c old = (case c of CoverUndefined \<Rightarrow> old | CoverNull \<Rightarrow> None | CoverString s \<Rightarrow> Some s)"

definition or_else :: "'a option \<Rightarrow> 'a \<Rightarrow> 'a" where
  "or_else v d = (case v of None \<Rightarrow> d | Some x \<Rightarrow> x)"

definition no_fields :: "update_data \<Rightarrow> bool" where
  "no_fields u =
     (u_category_id u = None \<and> u_title u = None \<and> u_description u = None
      \<and> u_location u = None \<and> u_cover_image u = CoverUndefined \<and> u_date_time u = None
      \<and> u_status u = None)"

definition set_fields :: "update_data \<Rightarrow> string option \<Rightarrow> news_row \<Rightarrow> news_row" where
  "set_fields u formattedDateTime r =
     r\<lparr>news_category_id := or_else (u_category_id u) (news_category_id r),
       news_title := or_else (u_title u) (news_title r),
       news_description := (case u_description u of None \<Rightarrow> news_description r | Some d \<Rightarrow> Some d),
       news_location := (case u_location u of None \<Rightarrow> news_location r | Some l \<Rightarrow> Some l),
       news_cover_image := cover_column (u_cover_image u) (news_cover_image r),
       news_date_time := or_else formattedDateTime (news_date_time r),
       news_status := or_else (u_status u) (news_status r)\<rparr>"

text \<open>
  \<open>update(id, updateData)\<close> of models/NewsAndEvents.js: the date is converted, by
  that file's \<open>formatDateTimeForMySQL\<close>, while the value list is built, so a date
  that is refused throws before the statement runs. The row takes the value that is
  bound. The engine refuses a category that does not exist. The result is the error,
  if any, and the database.
\<close>

definition converted_date_time :: "env \<Rightarrow> string option \<Rightarrow> string + string option" where
  "converted_date_time E v =
     (case v of
        None \<Rightarrow> Inr None
      | Some s \<Rightarrow> formatDateTimeForMySQL_legacy E (Some s))"

definition NewsAndEvents_update :: "env \<Rightarrow> database \<Rightarrow> nat \<Rightarrow> update_data \<Rightarrow> thrown option \<times> database" where
  "NewsAndEvents_update E db i u =
     (case converted_date_time E (u_date_time u) of
        Inl msg \<Rightarrow> (Some (Error msg), db)
      | Inr formattedDateTime \<Rightarrow>
          if no_fields u then (None, db)
          else if (case u_category_id u of None \<Rightarrow> False | Some c \<Rightarrow> c \<notin> set (category_ids db))
                  \<and> find (\<lambda>r. news_id r = i) (news_rows db) \<noteq> None
          then (Some NoReferencedRow, db)
          else
            (None,
             db\<lparr>news_rows :=
                  map (\<lambda>r. if news_id r = i then set_fields u formattedDateTime r else r)
                    (news_rows db)\<rparr>))"

section \<open>Update handler (controllers/newsAndEventsController.js)\<close>

text \<open>
  The \<open>images\<close> field of the body, as it is received. For a string, the constructor
  records what \<open>JSON.parse\<close> makes of it: an array, another JSON value, or no JSON at
  all (the empty string is of the last kind). The entries of an array are strings.
\<close>

datatype images_field =
    ImagesUndefined
  | ImagesNull
  | ImagesArray "string list"
  | ImagesJsonArray "string list"
  | ImagesJsonOther
  | ImagesText string

record update_body =
  b_category_id :: "nat option"
  b_title :: "string option"
  b_description :: "string option"
  b_location :: "string option"
  b_cover_image :: cover_field
  b_date_time :: "string option"
  b_status :: "string option"
  b_images :: images_field

text \<open>
  The request after the upload middleware: \<open>req.params.id\<close>, the body, and the
  generated file names of the files uploaded in the fields \<open>cover_image\<close> and
  \<open>images\<close>. The files themselves are on disk already.
\<close>

record update_request =
  req_id :: nat
  req_body :: update_body
  req_cover_files :: "string list"
  req_image_files :: "string list"

record world =
  w_db :: database
  w_files :: "file_path list"

text \<open>
  \<open>path.join(dir, file.filename)\<close> for a generated file name, which has no slash and
  is no dot name: nothing is there to normalise.
\<close>

definition path_join :: "string \<Rightarrow> string \<Rightarrow> string" where
  "path_join dir filename = dir @ ''/'' @ filename"

definition truthy :: "string option \<Rightarrow> bool" where
  "truthy v = (case v of None \<Rightarrow> False | Some s \<Rightarrow> s \<noteq> [])"

definition cover_of :: "string option \<Rightarrow> cover_field" where
  "cover_of v = (case v of None \<Rightarrow> CoverNull | Some s \<Rightarrow> CoverString s)"

text \<open>
  The cover image of the update: the value that goes into \<open>updateData.cover_image\<close>
  and the file system after the old cover file was deleted, where it was.
\<close>

definition cover_step ::
  "env \<Rightarrow> string option \<Rightarrow> update_request \<Rightarrow> file_path list \<Rightarrow> cover_field \<times> file_path list" where
  "cover_step E oldCoverImage req fs =
     (case req_cover_files req of
        file # others \<Rightarrow>
          (let newCoverImageUrl =
                 getRelativePath E (Some (path_join ''uploads/cover-images'' file)) Cover
           in (cover_of newCoverImageUrl,
               if truthy oldCoverImage \<and> oldCoverImage \<noteq> newCoverImageUrl
               then snd (deleteFile E oldCoverImage Cover fs) else fs))
      | [] \<Rightarrow>
          (case b_cover_image (req_body req) of
             CoverUndefined \<Rightarrow> (CoverUndefined, fs)
           | CoverNull \<Rightarrow>
               (CoverNull,
                if truthy oldCoverImage then snd (deleteFile E oldCoverImage Cover fs) else fs)
           | CoverString s \<Rightarrow>
               if s = [] then
                 (CoverNull,
                  if truthy oldCoverImage then snd (deleteFile E oldCoverImage Cover fs) else fs)
               else
                 (let newCoverImageUrl = getRelativePath E (Some s) Cover
                  in (cover_of newCoverImageUrl,
                      if truthy oldCoverImage \<and> oldCoverImage \<noteq> newCoverImageUrl
                      then snd (deleteFile E oldCoverImage Cover fs) else fs))))"

text \<open>
  The new image list of the update: \<open>shouldUpdateImages\<close> and \<open>imageUrls\<close>. A string
  that parses to a JSON value without \<open>map\<close> throws.
\<close>

definition request_images :: "env \<Rightarrow> update_request \<Rightarrow> thrown + (bool \<times> string option list)" where
  "request_images E req =
     (if req_image_files req \<noteq> [] then
        Inr (True, map (\<lambda>file. getRelativePath E (Some (path_join ''uploads/news-images'' file)) News)
                     (req_image_files req))
      else
        (case b_images (req_body req) of
           ImagesUndefined \<Rightarrow> Inr (False, [])
         | ImagesNull \<Rightarrow> Inr (True, [])
         | ImagesArray providedImages \<Rightarrow>
             Inr (True, map (\<lambda>img. getRelativePath E (Some img) News) providedImages)
         | ImagesJsonArray providedImages \<Rightarrow>
             Inr (True, map (\<lambda>img. getRelativePath E (Some img) News) providedImages)
         | ImagesJsonOther \<Rightarrow> Inl TypeError
         | ImagesText s \<Rightarrow>
             if s = [] then Inr (True, [])
             else Inr (True, [getRelativePath E (Some s) News])))"

text \<open>
  The smart update of the image set. \<open>oldImages\<close> are the rows read before any
  change, \<open>imageUrls\<close> the new list. The result is the error, if \<open>createMultiple\<close>
  threw, and the database and file system as they are left.
\<close>

definition delete_rows :: "image_row list \<Rightarrow> string list \<Rightarrow> database \<Rightarrow> database" where
  "delete_rows oldImages imagesToDelete db =
     fold (\<lambda>urlToDelete d.
             case find (\<lambda>img. image_url img = urlToDelete) oldImages of
               None \<Rightarrow> d
             | Some imageToDelete \<Rightarrow>
                 if image_id imageToDelete \<noteq> 0 then delete_image d (image_id imageToDelete) else d)
          imagesToDelete db"

definition images_to_delete :: "string list \<Rightarrow> string option list \<Rightarrow> string list" where
  "images_to_delete oldImageUrls imageUrls = filter (\<lambda>url. Some url \<notin> set imageUrls) oldImageUrls"

definition images_to_add :: "string list \<Rightarrow> string option list \<Rightarrow> string option list" where
  "images_to_add oldImageUrls imageUrls = filter (\<lambda>url. url \<notin> set (map Some oldImageUrls)) imageUrls"

definition images_to_keep :: "string list \<Rightarrow> string option list \<Rightarrow> string option list" where
  "images_to_keep oldImageUrls imageUrls = filter (\<lambda>url. url \<in> set (map Some oldImageUrls)) imageUrls"

definition smart_update ::
  "env \<Rightarrow> nat \<Rightarrow> image_row list \<Rightarrow> string option list \<Rightarrow> world \<Rightarrow> thrown option \<times> world" where
  "smart_update E i oldImages imageUrls w =
     (let oldImageUrls = map image_url oldImages;
          imagesToDelete = images_to_delete oldImageUrls imageUrls;
          imagesToAdd = images_to_add oldImageUrls imageUrls;
          w1 = (if imagesToDelete \<noteq> [] then
                  \<lparr>w_db = delete_rows oldImages imagesToDelete (w_db w),
                   w_files = deleteFiles E imagesToDelete News (w_files w)\<rparr>
                else w);
          (err, db2) = (if imagesToAdd \<noteq> [] then createMultiple i imagesToAdd (w_db w1)
                        else (None, w_db w1))
      in case err of
           Some e \<Rightarrow> (Some e, w1\<lparr>w_db := db2\<rparr>)
         | None \<Rightarrow>
             (None,
              w1\<lparr>w_db := (if imageUrls = [] \<and> oldImageUrls \<noteq> []
                          then deleteByNewsAndEventsId db2 i else db2)\<rparr>))"

text \<open>
  \<open>updateNewsAndEvents\<close>. The handler's \<open>catch\<close> answers 400 to the engine's
  foreign-key error and hands every other error to the error handler.
\<close>

definition caught :: "env \<Rightarrow> thrown \<Rightarrow> response" where
  "caught E e =
     (if e = NoReferencedRow then Response 400 False ''Invalid category ID'' NoData
      else error_response E e)"

definition updateNewsAndEvents :: "env \<Rightarrow> world \<Rightarrow> update_request \<Rightarrow> response \<times> world" where
  "updateNewsAndEvents E w req =
     (let i = req_id req; updateData = req_body req
      in case findById (w_db w) i of
           None \<Rightarrow> (Response 404 False ''News and events not found'' NoData, w)
         | Some existingNewsAndEvents \<Rightarrow>
             if (case b_category_id updateData of
                   None \<Rightarrow> False
                 | Some c \<Rightarrow> c \<noteq> 0 \<and> c \<notin> set (category_ids (w_db w)))
             then (Response 404 False ''Category not found'' NoData, w)
             else
               (let oldCoverImage = news_cover_image existingNewsAndEvents;
                    oldImages = findByNewsAndEventsId (w_db w) i;
                    (cover, fs1) = cover_step E oldCoverImage req (w_files w);
                    w1 = w\<lparr>w_files := fs1\<rparr>
                in case request_images E req of
                     Inl e \<Rightarrow> (caught E e, w1)
                   | Inr (shouldUpdateImages, imageUrls) \<Rightarrow>
                       (case NewsAndEvents_update E (w_db w1) i
                               \<lparr>u_category_id = b_category_id updateData,
                                u_title = b_title updateData,
                                u_description = b_description updateData,
                                u_location = b_location updateData,
                                u_cover_image = cover,
                                u_date_time = b_date_time updateData,
                                u_status = b_status updateData\<rparr> of
                          (Some e, db2) \<Rightarrow> (caught E e, w1\<lparr>w_db := db2\<rparr>)
                        | (None, db2) \<Rightarrow>
                            (case (if shouldUpdateImages
                                   then smart_update E i oldImages imageUrls (w1\<lparr>w_db := db2\<rparr>)
                                   else (None, w1\<lparr>w_db := db2\<rparr>)) of
                               (Some e, w3) \<Rightarrow> (caught E e, w3)
                             | (None, w3) \<Rightarrow>
                                 (case findById (w_db w3) i of
                                    None \<Rightarrow> (caught E TypeError, w3)
                                  | Some newsAndEvents \<Rightarrow>
                                      (Response 200 True ''News and events updated successfully''
                                         (ItemData (view_of E (w_db w3) newsAndEvents)),
                                       w3))))))"

section \<open>Validation of an update (middleware/validation.js)\<close>

text \<open>The regular expression \<open>/^https?:\/\/.+/\<close>.\<close>

definition url_shape :: "string \<Rightarrow> bool" where
  "url_shape s =
     (case (case stripPrefix ''http://'' s of
              Some r \<Rightarrow> Some r
            | None \<Rightarrow> stripPrefix ''https://'' s) of
        None \<Rightarrow> False
      | Some r \<Rightarrow> (case r of [] \<Rightarrow> False | c # cs \<Rightarrow> \<not> line_terminator c))"

definition valid_cover_image :: "cover_field \<Rightarrow> bool" where
  "valid_cover_image v =
     (case v of
        CoverUndefined \<Rightarrow> True
      | CoverNull \<Rightarrow> True
      | CoverString s \<Rightarrow>
          if s = [] then True
          else if url_shape s then length s \<le> 500
          else False)"

definition valid_images :: "images_field \<Rightarrow> bool" where
  "valid_images v = (v \<noteq> ImagesJsonOther)"

definition optional :: "'a option \<Rightarrow> ('a \<Rightarrow> bool) \<Rightarrow> bool" where
  "optional v p = (case v of None \<Rightarrow> True | Some x \<Rightarrow> p x)"

text \<open>
  \<open>validateNewsUpdate\<close>: the fields that fail, in the order of the chain. The
  category id is a number already. An empty list lets the request through.
\<close>

definition validateNewsUpdate :: "env \<Rightarrow> update_body \<Rightarrow> string list" where
  "validateNewsUpdate E b =
     (if optional (b_title b) (\<lambda>t. trim t \<noteq> [] \<and> 3 \<le> length (trim t) \<and> length (trim t) \<le> 255)
      then [] else [''title''])
     @ (if optional (b_description b) (\<lambda>d. length (trim d) \<le> 5000) then [] else [''description''])
     @ (if optional (b_location b) (\<lambda>l. length (trim l) \<le> 255) then [] else [''location''])
     @ (if valid_cover_image (b_cover_image b) then [] else [''cover_image''])
     @ (if optional (b_date_time b) (isISO8601 E) then [] else [''date_time''])
     @ (if optional (b_status b) (\<lambda>s. s = ''active'' \<or> s = ''inactive'') then [] else [''status''])
     @ (if valid_images (b_images b) then [] else [''images''])"

text \<open>The sanitizers of the chain: \<open>trim()\<close> on title, description and location.\<close>

definition sanitized :: "update_body \<Rightarrow> update_body" where
  "sanitized b =
     b\<lparr>b_title := map_option trim (b_title b),
       b_description := map_option trim (b_description b),
       b_location := map_option trim (b_location b)\<rparr>"

text \<open>
  \<open>PUT /api/news-and-events/:id\<close> after authentication and upload: the validation
  chain, then the handler.
\<close>

definition put_news_and_events :: "env \<Rightarrow> world \<Rightarrow> update_request \<Rightarrow> response \<times> world" where
  "put_news_and_events E w req =
     (let errors = validateNewsUpdate E (req_body req)
      in if errors \<noteq> [] then (Response 400 False ''Validation failed'' (ValidationErrors errors), w)
         else updateNewsAndEvents E w (req\<lparr>req_body := sanitized (req_body req)\<rparr>))"

section \<open>Stand-ins for the environment\<close>

text \<open>
  Concrete inputs are evaluated in \<open>local_env\<close>. Its date parser reads the one shape
  \<open>YYYY-MM-DDTHH:MM:SSZ\<close> with a month from 01 to 12, a day from 01 to 28 and a time
  of day, and knows no other date; its validator accepts that shape; its \<open>LIKE\<close>
  knows the wildcards \<open>%\<close> and \<open>_\<close> and compares the other characters exactly; a text
  compared with an integer column counts as the integer it starts with, or 0.
\<close>

definition num2 :: "char \<Rightarrow> char \<Rightarrow> nat" where
  "num2 a b = digits_value 10 [a, b]"

definition plain_date_parse :: "string \<Rightarrow> date_fields option" where
  "plain_date_parse s =
     (if list_all2 (\<lambda>p c. if p = CHR ''d'' then is_digit c else c = p) ''dddd-dd-ddTdd:dd:ddZ'' s
      then
        (let y = digits_value 10 (take 4 s);
             mo = digits_value 10 (take 2 (drop 5 s));
             d = digits_value 10 (take 2 (drop 8 s));
             h = digits_value 10 (take 2 (drop 11 s));
             mi = digits_value 10 (take 2 (drop 14 s));
             se = digits_value 10 (take 2 (drop 17 s))
         in if 1 \<le> mo \<and> mo \<le> 12 \<and> 1 \<le> d \<and> d \<le> 28 \<and> h < 24 \<and> mi < 60 \<and> se < 60
            then Some \<lparr>fullYear = int y, month = mo - 1, date = d, hours = h, minutes = mi,
                       seconds = se\<rparr>
            else None)
      else None)"

fun like_match :: "string \<Rightarrow> string \<Rightarrow> bool" where
  "like_match [] [] = True"
| "like_match (c # cs) [] = False"
| "like_match [] (p # ps) = (p = CHR ''%'' \<and> like_match [] ps)"
| "like_match (c # cs) (p # ps) =
     (if p = CHR ''%'' then like_match (c # cs) ps \<or> like_match cs (p # ps)
      else if p = CHR ''_'' then like_match cs ps
      else c = p \<and> like_match cs ps)"

definition local_env :: env where
  "local_env =
     \<lparr>url_pathname = plain_url_pathname,
      base_url = ''http://localhost:3000'',
      unlink_fails = (\<lambda>p. False),
      production = False,
      date_parse = plain_date_parse,
      date_parse_local = plain_date_parse,
      sql_like = like_match,
      sql_number = (\<lambda>s. or_default (parseInt10 s) 0),
      isISO8601 = (\<lambda>s. plain_date_parse s \<noteq> None)\<rparr>"

text \<open>
  The forms in which the handlers write an image reference into the database: \<open>null\<close>,
  an http(s) URL, or a canonical path.
\<close>

definition stored_form :: "string option \<Rightarrow> bool" where
  "stored_form v = (case v of None \<Rightarrow> True | Some s \<Rightarrow> is_http_url s \<or> is_canonical_path s)"

text \<open>
  The image table and the files of the gallery directory are the same in two worlds.
\<close>

definition gallery_untouched :: "world \<Rightarrow> world \<Rightarrow> bool" where
  "gallery_untouched w w' =
     (image_rows (w_db w') = image_rows (w_db w)
      \<and> next_image_id (w_db w') = next_image_id (w_db w)
      \<and> filter (\<lambda>p. fst p = NewsImagesDir) (w_files w')
          = filter (\<lambda>p. fst p = NewsImagesDir) (w_files w))"



section \<open>Sample data\<close>

definition no_query :: list_query where
  "no_query =
     \<lparr>q_page = None, q_limit = None, q_category_id = None, q_status = None, q_search = None,
      q_date_from = None, q_date_to = None\<rparr>"

definition sample_news :: "nat \<Rightarrow> string \<Rightarrow> string option \<Rightarrow> news_row" where
  "sample_news i st cover =
     \<lparr>news_id = i, news_category_id = 1, news_title = ''Opening'', news_description = None,
      news_location = None, news_cover_image = cover,
      news_date_time = ''2025-12-04 07:22:00'', news_status = st\<rparr>"

definition sample_image :: "nat \<Rightarrow> nat \<Rightarrow> string \<Rightarrow> nat \<Rightarrow> image_row" where
  "sample_image i n url ord =
     \<lparr>image_id = i, image_news_id = n, image_url = url, image_order = ord\<rparr>"

definition empty_db :: database where
  "empty_db = \<lparr>news_rows = [], image_rows = [], next_image_id = 1, category_ids = [1]\<rparr>"

definition sample_db :: database where
  "sample_db =
     \<lparr>news_rows = [sample_news 1 ''active'' (Some ''/cover-images/cover-1.jpg''),
                   sample_news 2 ''inactive'' None],
      image_rows = [sample_image 1 1 ''/news-images/a.jpg'' 0,
                    sample_image 2 1 ''/news-images/b.jpg'' 1],
      next_image_id = 3,
      category_ids = [1]\<rparr>"

definition sample_world :: world where
  "sample_world =
     \<lparr>w_db = sample_db,
      w_files = [(CoverImagesDir, ''cover-1.jpg''), (NewsImagesDir, ''a.jpg''),
                 (NewsImagesDir, ''b.jpg'')]\<rparr>"

definition no_body :: update_body where
  "no_body =
     \<lparr>b_category_id = None, b_title = None, b_description = None, b_location = None,
      b_cover_image = CoverUndefined, b_date_time = None, b_status = None,
      b_images = ImagesUndefined\<rparr>"

definition sample_request :: "update_body \<Rightarrow> update_request" where
  "sample_request b = \<lparr>req_id = 1, req_body = b, req_cover_files = [], req_image_files = []\<rparr>"

text \<open>
  The text that \<open>findAll\<close> appends for the pagination, and filters that carry nothing
  but a limit and an offset.
\<close>

definition limit_text :: "find_filters \<Rightarrow> string" where
  "limit_text F =
     (case f_limit F of
        None \<Rightarrow> []
      | Some l \<Rightarrow>
          '' LIMIT '' @ string_of_int l
          @ (case f_offset F of None \<Rightarrow> [] | Some off \<Rightarrow> '' OFFSET '' @ string_of_int off))"

definition page_filters :: "int \<Rightarrow> int \<Rightarrow> find_filters" where
  "page_filters l off =
     \<lparr>f_category_id = None, f_status = None, f_search = None, f_date_from = None,
      f_date_to = None, f_limit = Some l, f_offset = Some off\<rparr>"

section \<open>Properties of the path resolver\<close>

lemma startsWith_append: "startsWith (p @ s) p"
  by (simp add: startsWith_def)

lemma startsWith_Nil: "startsWith s []"
  by (simp add: startsWith_def)

lemma startsWith_Cons:
  "startsWith s (c # p) = (case s of [] \<Rightarrow> False | x # t \<Rightarrow> x = c \<and> startsWith t p)"
  by (cases s) (auto simp: startsWith_def)

lemma uploads_match_here_dir:
  "uploads_match_here s = Some (d, f) \<Longrightarrow> d = ''cover-images'' \<or> d = ''news-images''"
  unfolding uploads_match_here_def
  by (auto split: option.splits if_splits)

lemma uploads_match_dir:
  "uploads_match s = Some (d, f) \<Longrightarrow> d = ''cover-images'' \<or> d = ''news-images''"
  by (induction s) (auto split: option.splits dest: uploads_match_here_dir)

lemma matched_is_canonical:
  assumes "uploads_match s = Some (d, f)"
  shows "is_canonical_path (''/'' @ d @ ''/'' @ f)"
    and "\<not> is_http_url (''/'' @ d @ ''/'' @ f)"
  using uploads_match_dir [OF assms]
  by (auto simp: is_canonical_path_def is_http_url_def startsWith_def)

lemma canonical_not_http: "is_canonical_path s \<Longrightarrow> \<not> is_http_url s"
  by (cases s) (auto simp: is_canonical_path_def is_http_url_def startsWith_Cons)

lemma canonical_nonempty: "is_canonical_path s \<Longrightarrow> s \<noteq> []"
  by (auto simp: is_canonical_path_def startsWith_Cons)

lemma getRelativePath_canonical:
  "is_canonical_path s \<Longrightarrow> getRelativePath E (Some s) ft = Some s"
  by (simp add: getRelativePath_def canonical_not_http canonical_nonempty)

lemma getRelativePath_None: "getRelativePath E None ft = None"
  by (simp add: getRelativePath_def)

text \<open>
  C10. \<open>getRelativePath\<close> is idempotent: applied to its own output, for the same file
  type, it returns that output unchanged, whatever the URL parser answers. Canonical
  paths under \<open>/cover-images/\<close> and \<open>/news-images/\<close> are fixed points, and so is every
  URL that the function returned verbatim.
\<close>

theorem getRelativePath_idempotent:
  "getRelativePath E (getRelativePath E (Some s) ft) ft = getRelativePath E (Some s) ft
   \<and> (is_canonical_path s \<longrightarrow> getRelativePath E (Some s) ft = Some s)
   \<and> (getRelativePath E (Some s) ft = Some s \<longrightarrow>
        getRelativePath E (getRelativePath E (Some s) ft) ft = Some s)"
proof -
  have idem: "getRelativePath E (getRelativePath E (Some s) ft) ft = getRelativePath E (Some s) ft"
  proof (cases "s = []")
    case True
    then show ?thesis by (simp add: getRelativePath_def)
  next
    case nonempty: False
    show ?thesis
    proof (cases "is_http_url s")
      case http: True
      show ?thesis
      proof (cases "url_pathname E s")
        case None
        with nonempty http show ?thesis by (simp add: getRelativePath_def)
      next
        case (Some urlPath)
        show ?thesis
        proof (cases "uploads_match urlPath")
          case None
          with nonempty http Some show ?thesis by (simp add: getRelativePath_def)
        next
          case m: (Some df)
          obtain d f where df: "df = (d, f)" by (cases df)
          from m df have r: "getRelativePath E (Some s) ft = Some (''/'' @ d @ ''/'' @ f)"
            using nonempty http Some by (simp add: getRelativePath_def)
          from m df have "is_canonical_path (''/'' @ d @ ''/'' @ f)"
            using matched_is_canonical(1) by blast
          then show ?thesis using r by (simp add: getRelativePath_canonical)
        qed
      qed
    next
      case nohttp: False
      show ?thesis
      proof (cases "is_canonical_path s")
        case True
        then show ?thesis by (simp add: getRelativePath_canonical)
      next
        case nocanon: False
        have c: "is_canonical_path (''/cover-images/'' @ basename s)"
          using startsWith_append [of "''/cover-images/''" "basename s"]
          by (simp add: is_canonical_path_def)
        have n: "is_canonical_path (''/news-images/'' @ basename s)"
          using startsWith_append [of "''/news-images/''" "basename s"]
          by (simp add: is_canonical_path_def)
        show ?thesis
        proof (cases ft)
          case Cover
          then have "getRelativePath E (Some s) ft = Some (''/cover-images/'' @ basename s)"
            using nonempty nohttp nocanon by (simp add: getRelativePath_def)
          then show ?thesis using c by (simp add: getRelativePath_canonical)
        next
          case News
          then have "getRelativePath E (Some s) ft = Some (''/news-images/'' @ basename s)"
            using nonempty nohttp nocanon by (simp add: getRelativePath_def)
          then show ?thesis using n by (simp add: getRelativePath_canonical)
        next
          case OtherType
          then have "getRelativePath E (Some s) ft = Some s"
            using nonempty nohttp nocanon by (simp add: getRelativePath_def)
          then show ?thesis by simp
        qed
      qed
    qed
  qed
  show ?thesis
    using idem by (auto simp: getRelativePath_canonical)
qed

theorem getRelativePath_idempotent_witness:
  "getRelativePath local_env
     (getRelativePath local_env (Some ''http://localhost:3000/public/uploads/news-images/a.jpg'') News)
     News = Some ''/news-images/a.jpg''
   \<and> getRelativePath local_env (Some ''/cover-images/c.png'') Cover = Some ''/cover-images/c.png''
   \<and> getRelativePath local_env (Some ''uploads/news-images/news-1.jpg'') News
       = Some ''/news-images/news-1.jpg''"
proof -
  have a: "getRelativePath local_env (Some ''http://localhost:3000/public/uploads/news-images/a.jpg'') News
           = Some ''/news-images/a.jpg''"
    by (simp add: getRelativePath_def local_env_def plain_url_pathname_def stripPrefix_def
        startsWith_def is_http_url_def uploads_match_here_def line_terminator_def)
  have b: "is_canonical_path ''/cover-images/c.png''"
    by (simp add: is_canonical_path_def startsWith_def)
  have c: "getRelativePath local_env (Some ''uploads/news-images/news-1.jpg'') News
           = Some ''/news-images/news-1.jpg''"
    by (simp add: getRelativePath_def is_http_url_def is_canonical_path_def startsWith_def
        basename_def)
  from getRelativePath_idempotent
         [where E = local_env and ft = News
            and s = "''http://localhost:3000/public/uploads/news-images/a.jpg''"]
       getRelativePath_idempotent
         [where E = local_env and ft = Cover and s = "''/cover-images/c.png''"]
       a b c
  show ?thesis by simp
qed

section \<open>External URLs\<close>

lemma is_http_url_nonempty: "is_http_url u \<Longrightarrow> u \<noteq> []"
  by (auto simp: is_http_url_def startsWith_Cons)

lemma example_url_is_http: "is_http_url ''https://cdn.example.com/assets/a.jpg''"
  by code_simp

lemma example_url_pathname:
  "url_pathname local_env ''https://cdn.example.com/assets/a.jpg'' = Some ''/assets/a.jpg''"
  by code_simp

lemma example_url_no_match: "uploads_match ''/assets/a.jpg'' = None"
  by code_simp

lemma example_url_not_base:
  "\<not> str_includes ''https://cdn.example.com/assets/a.jpg'' (base_url local_env)"
  by code_simp

lemma example_url_not_localhost:
  "\<not> str_includes ''https://cdn.example.com/assets/a.jpg'' ''localhost''"
  by code_simp

text \<open>
  The host of a URL is never looked at by \<open>getRelativePath\<close>: a URL of another host
  whose path ends in \<open>/uploads/news-images/<file>\<close> is rewritten to the canonical path.
\<close>

theorem external_url_rewritten_counterexample:
  "is_http_url ''https://cdn.example.com/uploads/news-images/a.jpg''
   \<and> getRelativePath local_env (Some ''https://cdn.example.com/uploads/news-images/a.jpg'') News
       = Some ''/news-images/a.jpg''
   \<and> getRelativePath local_env (Some ''https://cdn.example.com/uploads/news-images/a.jpg'') News
       \<noteq> Some ''https://cdn.example.com/uploads/news-images/a.jpg''"
  by code_simp

text \<open>
  \<open>deleteFile\<close> takes a URL for local as soon as the text \<open>localhost\<close> or the base URL
  occurs anywhere in it: the file named by a URL of another host is unlinked here.
\<close>

lemma foreign_localhost_file_unlinked:
  "deleteFile local_env (Some ''https://cdn.example.com/localhost/a.jpg'') News
     [(NewsImagesDir, ''a.jpg'')] = (Resolved True, [])"
  by code_simp

text \<open>
  C7, as amended. An absolute http(s) URL whose path does not end in
  \<open>/uploads/cover-images/<file>\<close> or \<open>/uploads/news-images/<file>\<close> (or which the URL
  parser refuses) is returned verbatim by \<open>getRelativePath\<close>; and for an http(s) URL
  in which neither the base URL nor the text \<open>localhost\<close> occurs, \<open>deleteFile\<close>
  resolves \<open>false\<close> before it looks at the file system, which it leaves as it is.
\<close>

theorem external_url_untouched:
  assumes "is_http_url u"
  shows "((case url_pathname E u of None \<Rightarrow> True | Some p \<Rightarrow> uploads_match p = None)
            \<longrightarrow> getRelativePath E (Some u) ft = Some u)
       \<and> (\<not> str_includes u (base_url E) \<and> \<not> str_includes u ''localhost''
            \<longrightarrow> deleteFile_target E (Some u) ft = None
                \<and> deleteFile E (Some u) ft fs = (Resolved False, fs))"
proof -
  from assms have ne: "u \<noteq> []" by (rule is_http_url_nonempty)
  from assms have h: "startsWith u ''http://'' \<or> startsWith u ''https://''"
    by (simp add: is_http_url_def)
  have a: "(case url_pathname E u of None \<Rightarrow> True | Some p \<Rightarrow> uploads_match p = None)
            \<Longrightarrow> getRelativePath E (Some u) ft = Some u"
    using assms ne by (auto simp: getRelativePath_def split: option.splits)
  have b: "\<not> str_includes u (base_url E) \<Longrightarrow> \<not> str_includes u ''localhost''
            \<Longrightarrow> deleteFile_target E (Some u) ft = None"
    using h ne by (simp add: deleteFile_target_def)
  show ?thesis using a b by (auto simp: deleteFile_def)
qed

theorem external_url_untouched_witness:
  "getRelativePath local_env (Some ''https://cdn.example.com/assets/a.jpg'') News
     = Some ''https://cdn.example.com/assets/a.jpg''
   \<and> deleteFile local_env (Some ''https://cdn.example.com/assets/a.jpg'') News
        [(NewsImagesDir, ''a.jpg'')] = (Resolved False, [(NewsImagesDir, ''a.jpg'')])"
  using external_url_untouched [OF example_url_is_http, where E = local_env and ft = News
          and fs = "[(NewsImagesDir, ''a.jpg'')]"]
        example_url_pathname example_url_no_match example_url_not_base example_url_not_localhost
  by simp

section \<open>Pagination of the listing handlers\<close>

lemma pagination_rejected:
  assumes "or_default (parseInt (q_page q)) 1 < 1
           \<or> or_default (parseInt (q_limit q)) 10 < 1
           \<or> or_default (parseInt (q_limit q)) 10 > 100"
  shows "resp_status (fst (getAllNewsAndEvents E db q)) = 400"
    and "snd (getAllNewsAndEvents E db q) = []"
    and "resp_status (fst (getActiveNewsAndEvents E db q)) = 400"
    and "snd (getActiveNewsAndEvents E db q) = []"
  using assms by (auto simp: getAllNewsAndEvents_def getActiveNewsAndEvents_def Let_def)

lemma parseInt_101: "parseInt (Some ''101'') = Some 101"
  by code_simp

lemma parseInt_0: "parseInt (Some ''0'') = Some 0"
  by code_simp

lemma parseInt_minus_1: "parseInt (Some ''-1'') = Some (- 1)"
  by code_simp

lemma limit_101_rejected:
  "resp_status (fst (getAllNewsAndEvents E db (q\<lparr>q_limit := Some ''101''\<rparr>))) = 400
   \<and> snd (getAllNewsAndEvents E db (q\<lparr>q_limit := Some ''101''\<rparr>)) = []
   \<and> resp_status (fst (getActiveNewsAndEvents E db (q\<lparr>q_limit := Some ''101''\<rparr>))) = 400
   \<and> snd (getActiveNewsAndEvents E db (q\<lparr>q_limit := Some ''101''\<rparr>)) = []"
  using pagination_rejected [of "q\<lparr>q_limit := Some ''101''\<rparr>" E db]
  by (simp add: parseInt_101 or_default_def)

lemma parseInt_None: "parseInt None = None"
  by (simp add: parseInt_def)

lemma zero_is_default:
  "or_default (Some 0) d = or_default None d"
  by (simp add: or_default_def)

lemma page_zero_is_page_absent:
  "getAllNewsAndEvents E db (q\<lparr>q_page := Some ''0''\<rparr>) = getAllNewsAndEvents E db (q\<lparr>q_page := None\<rparr>)"
  "getActiveNewsAndEvents E db (q\<lparr>q_page := Some ''0''\<rparr>) = getActiveNewsAndEvents E db (q\<lparr>q_page := None\<rparr>)"
  by (simp_all add: getAllNewsAndEvents_def getActiveNewsAndEvents_def parseInt_0 parseInt_None
      zero_is_default Let_def)

lemma limit_zero_is_limit_absent:
  "getAllNewsAndEvents E db (q\<lparr>q_limit := Some ''0''\<rparr>) = getAllNewsAndEvents E db (q\<lparr>q_limit := None\<rparr>)"
  "getActiveNewsAndEvents E db (q\<lparr>q_limit := Some ''0''\<rparr>) = getActiveNewsAndEvents E db (q\<lparr>q_limit := None\<rparr>)"
  by (simp_all add: getAllNewsAndEvents_def getActiveNewsAndEvents_def parseInt_0 parseInt_None
      zero_is_default Let_def)

lemma no_query_absent:
  "no_query\<lparr>q_page := None\<rparr> = no_query" "no_query\<lparr>q_limit := None\<rparr> = no_query"
  by (simp_all add: no_query_def)

lemma default_listing_runs:
  "(case getAllNewsAndEvents local_env empty_db no_query of
      (r, calls) \<Rightarrow> resp_status r = 200 \<and> calls \<noteq> [])"
  by code_simp

lemma default_public_listing_runs:
  "(case getActiveNewsAndEvents local_env empty_db no_query of
      (r, calls) \<Rightarrow> resp_status r = 200 \<and> calls \<noteq> [])"
  by code_simp

text \<open>
  C2. With \<open>page=0\<close> or \<open>limit=0\<close> the handlers do not answer 400: the value is
  replaced by its default before the range is checked, the queries run, and the
  answer is 200, on the first page or with ten items a page.
\<close>

theorem zero_page_or_limit_not_rejected:
  "resp_status (fst (getAllNewsAndEvents local_env empty_db (no_query\<lparr>q_page := Some ''0''\<rparr>))) = 200
   \<and> snd (getAllNewsAndEvents local_env empty_db (no_query\<lparr>q_page := Some ''0''\<rparr>)) \<noteq> []
   \<and> resp_status (fst (getAllNewsAndEvents local_env empty_db (no_query\<lparr>q_limit := Some ''0''\<rparr>))) = 200
   \<and> snd (getAllNewsAndEvents local_env empty_db (no_query\<lparr>q_limit := Some ''0''\<rparr>)) \<noteq> []
   \<and> resp_status (fst (getActiveNewsAndEvents local_env empty_db (no_query\<lparr>q_page := Some ''0''\<rparr>))) = 200
   \<and> snd (getActiveNewsAndEvents local_env empty_db (no_query\<lparr>q_page := Some ''0''\<rparr>)) \<noteq> []
   \<and> resp_status (fst (getActiveNewsAndEvents local_env empty_db (no_query\<lparr>q_limit := Some ''0''\<rparr>))) = 200
   \<and> snd (getActiveNewsAndEvents local_env empty_db (no_query\<lparr>q_limit := Some ''0''\<rparr>)) \<noteq> []"
  using default_listing_runs default_public_listing_runs
  by (simp add: page_zero_is_page_absent limit_zero_is_limit_absent no_query_absent
      split: prod.splits)

section \<open>Datetime conversion\<close>

lemma convert_date_result:
  "convert_date E t = Inr f \<Longrightarrow> is_mysql_datetime f"
  by (auto simp: convert_date_def Let_def split: option.splits if_splits)

lemma convert_date_invalid:
  "date_parse E t = None \<Longrightarrow> convert_date E t = Inl (''Invalid date: '' @ t)"
  by (simp add: convert_date_def)

lemma formatDateTimeForMySQL_string_result:
  assumes "formatDateTimeForMySQL E (JString s) = Inr r"
  shows "\<exists>f. r = JString f \<and> is_mysql_datetime f"
  using assms
  by (auto simp: formatDateTimeForMySQL_def Let_def
      split: if_splits sum.splits dest: convert_date_result)

lemma formatDateTimeForMySQL_string_error:
  assumes "formatDateTimeForMySQL E (JString s) = Inl m"
  shows "m = ''Empty datetime string is not allowed''
         \<or> (\<exists>rest. m = ''Invalid datetime format: '' @ rest)"
  using assms
  by (auto simp: formatDateTimeForMySQL_def Let_def split: if_splits sum.splits)

lemma formatDateTimeForMySQL_other:
  assumes "v \<noteq> JNull" and "v \<noteq> JUndefined" and "\<forall>s. v \<noteq> JString s"
  shows "formatDateTimeForMySQL E v
         = Inl (''Expected string, got '' @ typeof v @ '': '' @ js_to_string v)"
  using assms by (cases v) (simp_all add: formatDateTimeForMySQL_def)

lemma blank_trims_to_nothing: "trim ''   '' = []"
  by code_simp

lemma iso_example_converted:
  "formatDateTimeForMySQL local_env (JString ''2025-12-04T07:22:00Z'')
   = Inr (JString ''2025-12-04 07:22:00'')"
  by code_simp

lemma unknown_date_example:
  "trim ''next tuesday'' = ''next tuesday'' \<and> \<not> is_mysql_datetime ''next tuesday''
   \<and> date_parse local_env ''next tuesday'' = None"
  by code_simp

text \<open>
  The older copy of the conversion accepts the empty string and returns it.
\<close>

lemma legacy_accepts_empty_string: "formatDateTimeForMySQL_legacy E (Some []) = Inr (Some [])"
  by (simp add: formatDateTimeForMySQL_legacy_def)

text \<open>
  The conversion hands \<open>null\<close> and \<open>undefined\<close> back instead of refusing them, and a
  string of the shape \<open>dddd-dd-dd dd:dd:dd\<close> is handed back without a look at the
  calendar.
\<close>

theorem formatDateTimeForMySQL_accepts_counterexample:
  "formatDateTimeForMySQL local_env JNull = Inr JNull
   \<and> formatDateTimeForMySQL local_env JUndefined = Inr JUndefined
   \<and> formatDateTimeForMySQL local_env (JString ''2025-99-99 99:99:99'')
       = Inr (JString ''2025-99-99 99:99:99'')"
  by code_simp

text \<open>
  C3, as amended. \<open>formatDateTimeForMySQL\<close> refuses a string that is empty once
  trimmed, a value that is neither a string nor \<open>null\<close> nor \<open>undefined\<close>, and a string
  that has not the shape \<open>YYYY-MM-DD HH:MM:SS\<close> and that \<open>Date\<close> cannot parse, with
  three messages that differ from one another; every other refusal of a string is
  an \<open>Invalid datetime format\<close> as well. \<open>null\<close> and \<open>undefined\<close> are returned as
  they are, a trimmed string of the shape \<open>YYYY-MM-DD HH:MM:SS\<close> is returned as it
  is, and every string that is returned has that shape.
\<close>

theorem formatDateTimeForMySQL_contract:
  "(trim s = [] \<longrightarrow>
      formatDateTimeForMySQL E (JString s) = Inl ''Empty datetime string is not allowed'')
   \<and> (v \<noteq> JNull \<and> v \<noteq> JUndefined \<and> (\<forall>t. v \<noteq> JString t) \<longrightarrow>
      formatDateTimeForMySQL E v
      = Inl (''Expected string, got '' @ typeof v @ '': '' @ js_to_string v))
   \<and> (trim s \<noteq> [] \<and> \<not> is_mysql_datetime (trim s) \<and> date_parse E (trim s) = None \<longrightarrow>
      formatDateTimeForMySQL E (JString s)
      = Inl (''Invalid datetime format: '' @ trim s @ ''. Invalid date: '' @ trim s))
   \<and> ''Empty datetime string is not allowed'' \<noteq> ''Expected string, got '' @ x
   \<and> ''Empty datetime string is not allowed'' \<noteq> ''Invalid datetime format: '' @ y
   \<and> ''Expected string, got '' @ x \<noteq> ''Invalid datetime format: '' @ y
   \<and> (\<forall>m. formatDateTimeForMySQL E (JString s) = Inl m \<longrightarrow>
          m = ''Empty datetime string is not allowed''
          \<or> (\<exists>rest. m = ''Invalid datetime format: '' @ rest))
   \<and> (\<forall>r. formatDateTimeForMySQL E (JString s) = Inr r \<longrightarrow>
          (\<exists>f. r = JString f \<and> is_mysql_datetime f))
   \<and> (trim s \<noteq> [] \<and> is_mysql_datetime (trim s) \<longrightarrow>
          formatDateTimeForMySQL E (JString s) = Inr (JString (trim s)))
   \<and> formatDateTimeForMySQL E JNull = Inr JNull
   \<and> formatDateTimeForMySQL E JUndefined = Inr JUndefined"
proof -
  have empty: "trim s = [] \<Longrightarrow>
      formatDateTimeForMySQL E (JString s) = Inl ''Empty datetime string is not allowed''"
    by (simp add: formatDateTimeForMySQL_def Let_def)
  have invalid: "trim s \<noteq> [] \<Longrightarrow> \<not> is_mysql_datetime (trim s) \<Longrightarrow> date_parse E (trim s) = None \<Longrightarrow>
      formatDateTimeForMySQL E (JString s)
      = Inl (''Invalid datetime format: '' @ trim s @ ''. Invalid date: '' @ trim s)"
    by (simp add: formatDateTimeForMySQL_def convert_date_invalid Let_def)
  have pass: "trim s \<noteq> [] \<Longrightarrow> is_mysql_datetime (trim s) \<Longrightarrow>
      formatDateTimeForMySQL E (JString s) = Inr (JString (trim s))"
    by (simp add: formatDateTimeForMySQL_def Let_def)
  have nulls: "formatDateTimeForMySQL E JNull = Inr JNull"
      "formatDateTimeForMySQL E JUndefined = Inr JUndefined"
    by (simp_all add: formatDateTimeForMySQL_def)
  have distinct_messages:
      "''Empty datetime string is not allowed'' \<noteq> ''Expected string, got '' @ x"
      "''Empty datetime string is not allowed'' \<noteq> ''Invalid datetime format: '' @ y"
      "''Expected string, got '' @ x \<noteq> ''Invalid datetime format: '' @ y"
    by simp_all
  show ?thesis
    using empty invalid pass nulls distinct_messages
      formatDateTimeForMySQL_other [of v E]
      formatDateTimeForMySQL_string_result [of E s]
      formatDateTimeForMySQL_string_error [of E s]
    by blast
qed

theorem formatDateTimeForMySQL_contract_witness:
  "formatDateTimeForMySQL local_env (JString ''   '') = Inl ''Empty datetime string is not allowed''
   \<and> formatDateTimeForMySQL local_env (JNumber 5) = Inl ''Expected string, got number: 5''
   \<and> formatDateTimeForMySQL local_env (JString ''next tuesday'')
       = Inl ''Invalid datetime format: next tuesday. Invalid date: next tuesday''
   \<and> is_mysql_datetime ''2025-12-04 07:22:00''"
proof -
  note c = formatDateTimeForMySQL_contract
  have a: "formatDateTimeForMySQL local_env (JString ''   '')
           = Inl ''Empty datetime string is not allowed''"
    using c [where E = local_env and s = "''   ''"] blank_trims_to_nothing by simp
  have five: "''Expected string, got '' @ typeof (JNumber 5) @ '': '' @ js_to_string (JNumber 5)
              = ''Expected string, got number: 5''"
    by code_simp
  have b: "formatDateTimeForMySQL local_env (JNumber 5) = Inl ''Expected string, got number: 5''"
    using c [where E = local_env and v = "JNumber 5"] five by simp
  have d: "formatDateTimeForMySQL local_env (JString ''next tuesday'')
       = Inl ''Invalid datetime format: next tuesday. Invalid date: next tuesday''"
    using c [where E = local_env and s = "''next tuesday''"] unknown_date_example by simp
  have e: "is_mysql_datetime ''2025-12-04 07:22:00''"
    using c [where E = local_env and s = "''2025-12-04T07:22:00Z''"] iso_example_converted
    by auto
  from a b d e show ?thesis by simp
qed

section \<open>Pagination in the text of the listing query\<close>

lemma digit_char_in_digits: "digit_char n \<in> set ''0123456789''"
  unfolding digit_char_def by (rule nth_mem) simp

lemma digit_char_no_placeholder: "digit_char n \<noteq> CHR ''?''"
  using digit_char_in_digits [of n] by auto

lemma string_of_nat_no_placeholder: "count_list (string_of_nat n) (CHR ''?'') = 0"
proof (induction n rule: string_of_nat.induct)
  case (1 n)
  show ?case
  proof (cases "n < 10")
    case True
    then show ?thesis
      by (subst string_of_nat.simps) (simp add: digit_char_no_placeholder)
  next
    case False
    with 1 show ?thesis
      by (subst string_of_nat.simps) (simp add: digit_char_no_placeholder)
  qed
qed

lemma string_of_int_no_placeholder: "count_list (string_of_int i) (CHR ''?'') = 0"
  by (simp add: string_of_int_def string_of_nat_no_placeholder)

lemma count_list_append: "count_list (xs @ ys) a = count_list xs a + count_list ys a"
  by (induction xs) auto

lemma limit_text_no_placeholder: "count_list (limit_text F) (CHR ''?'') = 0"
  by (simp add: limit_text_def count_list_append string_of_int_no_placeholder
      split: option.splits)

lemma build_where_ignores_pagination:
  "build_where E (F\<lparr>f_limit := None, f_offset := None\<rparr>) = build_where E F"
  by (simp add: build_where_def with_category_def with_status_def with_search_def)

lemma with_pagination_shape:
  assumes "with_pagination F st = Inr st'"
  shows "st_params st' = st_params st" and "st_where st' = st_where st"
    and "st_text st' = st_text st @ limit_text F"
    and "\<forall>l. f_limit F = Some l \<longrightarrow> 1 \<le> l \<and> st_limit st' = Some l"
    and "\<forall>l off. f_limit F = Some l \<and> f_offset F = Some off \<longrightarrow> 0 \<le> off \<and> st_offset st' = Some off"
  using assms
  by (auto simp: with_pagination_def limit_text_def split: option.splits if_splits)

lemma check_placeholders_result: "check_placeholders st = Inr st' \<Longrightarrow> st' = st"
  by (auto simp: check_placeholders_def Let_def split: if_splits)

lemma check_placeholders_same:
  assumes "check_placeholders st = Inr st"
    and "st_params st0 = st_params st" and "st_text st = st_text st0 @ t"
    and "count_list t (CHR ''?'') = 0"
  shows "check_placeholders st0 = Inr st0"
  using assms
  by (auto simp: check_placeholders_def Let_def count_list_append split: if_splits)

text \<open>
  The validating copy of \<open>findAll\<close>: whenever it reaches the engine, the limit is at
  least 1 and the offset at least 0, the bound parameters are those of the same
  call without limit and offset, and the text is that call's text followed by the
  two integers.
\<close>

lemma findAll_pagination_in_text:
  assumes "findAll E F = Inr st"
  shows "\<exists>st0. findAll E (F\<lparr>f_limit := None, f_offset := None\<rparr>) = Inr st0
           \<and> st_params st = st_params st0
           \<and> st_text st = st_text st0 @ limit_text F"
    and "\<forall>l. f_limit F = Some l \<longrightarrow> 1 \<le> l"
    and "\<forall>l off. f_limit F = Some l \<and> f_offset F = Some off \<longrightarrow> 0 \<le> off"
proof -
  from assms obtain st0 st1 where
    b: "build_where E F = Inr st0" and p: "with_pagination F st0 = Inr st1"
    and c: "check_placeholders st1 = Inr st"
    by (auto simp: findAll_def and_then_def split: sum.splits)
  from c have eq: "st1 = st" using check_placeholders_result [of st1 st] by simp
  note shape = with_pagination_shape [OF p]
  have c0: "check_placeholders st0 = Inr st0"
    using check_placeholders_same [of st st0 "limit_text F"] c eq shape
      limit_text_no_placeholder [of F]
    by simp
  have "findAll E (F\<lparr>f_limit := None, f_offset := None\<rparr>) = Inr st0"
    using b c0
    by (simp add: findAll_def and_then_def build_where_ignores_pagination with_pagination_def)
  then show "\<exists>st0. findAll E (F\<lparr>f_limit := None, f_offset := None\<rparr>) = Inr st0
           \<and> st_params st = st_params st0
           \<and> st_text st = st_text st0 @ limit_text F"
    using shape eq by auto
  show "\<forall>l. f_limit F = Some l \<longrightarrow> 1 \<le> l" using shape(4) by auto
  show "\<forall>l off. f_limit F = Some l \<and> f_offset F = Some off \<longrightarrow> 0 \<le> off"
    using shape(5) by auto
qed

lemma findAll_legacy_binds_limit:
  assumes "findAll_legacy E F = Inr st" and "f_limit F = Some l" and "l \<noteq> 0"
  shows "PInt l \<in> set (st_params st)"
  using assms
  by (auto simp: findAll_legacy_def and_then_def Let_def with_pagination_legacy_def
      truthy_number_def split: sum.splits option.splits if_splits)

text \<open>
  C4. The older copy of \<open>findAll\<close> (models/NewsAndEvents.js) writes \<open>LIMIT ?\<close> and
  \<open>OFFSET ?\<close> into the text and pushes the limit and the offset onto the bound
  parameters, where the validating copy substitutes the two integers into the text.
\<close>

theorem findAll_legacy_binds_pagination:
  "(case findAll_legacy local_env (page_filters 10 10) of
      Inl e \<Rightarrow> False
    | Inr st \<Rightarrow>
        st_params st = [PInt 10, PInt 10]
        \<and> st_text st
          = select_head @ '' ORDER BY n.date_time DESC, n.created_at DESC LIMIT ? OFFSET ?'')"
  by code_simp

lemma findAll_substitutes_pagination:
  "(case findAll local_env (page_filters 10 10) of
      Inl e \<Rightarrow> False
    | Inr st \<Rightarrow>
        st_params st = []
        \<and> st_text st
          = select_head @ '' ORDER BY n.date_time DESC, n.created_at DESC LIMIT 10 OFFSET 10'')"
  by code_simp

section \<open>The public endpoints\<close>

lemma with_category_where:
  "with_category F st = Inr st' \<Longrightarrow> set (st_where st) \<subseteq> set (st_where st')"
  by (auto simp: with_category_def add_where_def split: option.splits if_splits)

lemma with_status_where:
  "f_status F = Some s \<Longrightarrow> s \<noteq> [] \<Longrightarrow> StatusEq s \<in> set (st_where (with_status F st))"
  by (simp add: with_status_def add_where_def)

lemma with_search_where: "set (st_where st) \<subseteq> set (st_where (with_search F st))"
  by (auto simp: with_search_def add_where_def Let_def split: option.splits)

lemma with_date_where:
  "with_date E name txt mk v st = Inr st' \<Longrightarrow> set (st_where st) \<subseteq> set (st_where st')"
  by (auto simp: with_date_def add_where_def split: option.splits if_splits sum.splits jsval.splits)

lemma build_where_status:
  assumes "build_where E F = Inr st" and "f_status F = Some s" and "s \<noteq> []"
  shows "StatusEq s \<in> set (st_where st)"
proof -
  from assms(1) obtain st1 st2 st3 where
    a: "with_category F (empty_statement select_head) = Inr st1"
    and b: "with_date E ''date_from'' '' AND n.date_time >= ?'' DateTimeGe (f_date_from F)
              (with_search F (with_status F st1)) = Inr st2"
    and c: "with_date E ''date_to'' '' AND n.date_time <= ?'' DateTimeLe (f_date_to F) st2 = Inr st3"
    and d: "st = add_text '' ORDER BY n.date_time DESC, n.created_at DESC'' st3"
    by (auto simp: build_where_def and_then_def split: sum.splits)
  have "StatusEq s \<in> set (st_where (with_status F st1))"
    using assms(2,3) by (rule with_status_where)
  then have "StatusEq s \<in> set (st_where (with_search F (with_status F st1)))"
    using with_search_where by blast
  then have "StatusEq s \<in> set (st_where st2)"
    using with_date_where [OF b] by blast
  then have "StatusEq s \<in> set (st_where st3)"
    using with_date_where [OF c] by blast
  then show ?thesis by (simp add: d add_text_def)
qed

lemma findAll_status:
  assumes "findAll E F = Inr st" and "f_status F = Some s" and "s \<noteq> []"
  shows "StatusEq s \<in> set (st_where st)"
proof -
  from assms(1) obtain st0 st1 where
    b: "build_where E F = Inr st0" and p: "with_pagination F st0 = Inr st1"
    and c: "check_placeholders st1 = Inr st"
    by (auto simp: findAll_def and_then_def split: sum.splits)
  have "st = st1" using check_placeholders_result [OF c] .
  moreover have "st_where st1 = st_where st0" using with_pagination_shape(2) [OF p] .
  ultimately show ?thesis using build_where_status [OF b assms(2,3)] by simp
qed

lemma run_select_subset: "set (run_select E rows st) \<subseteq> set (matching_rows E rows st)"
proof -
  have a: "set (take n (drop m xs)) \<subseteq> set xs" for n m and xs :: "news_row list"
    using set_take_subset set_drop_subset by fastforce
  have b: "set (take n xs) \<subseteq> set xs" for n and xs :: "news_row list"
    by (rule set_take_subset)
  have c: "set (drop n xs) \<subseteq> set xs" for n and xs :: "news_row list"
    by (rule set_drop_subset)
  show ?thesis
    unfolding run_select_def Let_def
    using a [of _ _ "rev (sort_key news_date_time (matching_rows E rows st))"]
      b [of _ "rev (sort_key news_date_time (matching_rows E rows st))"]
      c [of _ "rev (sort_key news_date_time (matching_rows E rows st))"]
    by (auto split: option.splits)
qed

lemma selected_rows_status:
  assumes "StatusEq s \<in> set (st_where st)" and "r \<in> set (run_select E rows st)"
  shows "news_status r = s"
proof -
  from assms(2) have "r \<in> set (matching_rows E rows st)"
    using run_select_subset by blast
  then have "list_all (\<lambda>c. clause_holds E c r) (st_where st)"
    by (simp add: matching_rows_def)
  with assms(1) have "clause_holds E (StatusEq s) r"
    by (simp add: list_all_iff)
  then show ?thesis by (simp add: clause_holds_def)
qed

lemma view_row_view_of: "view_row (view_of E db r) = r"
  by (simp add: view_of_def)

lemma with_date_legacy_where:
  "with_date_legacy E txt mk v st = Inr st' \<Longrightarrow> set (st_where st) \<subseteq> set (st_where st')"
  by (auto simp: with_date_legacy_def add_where_def split: option.splits sum.splits)

lemma with_pagination_legacy_where: "st_where (with_pagination_legacy F st) = st_where st"
  by (simp add: with_pagination_legacy_def Let_def split: option.splits)

lemma with_status_legacy_where:
  assumes "f_status F = Some s" and "s \<noteq> []"
  shows "StatusEq s \<in> set (st_where
           (case truthy_string (f_status F) of
              None \<Rightarrow> st1
            | Some x \<Rightarrow> add_where '' AND n.status = ?'' [PStr x] (StatusEq x) st1))"
  using assms by (simp add: truthy_string_def add_where_def)

lemma with_search_legacy_where:
  "set (st_where st2)
   \<subseteq> set (st_where
        (case truthy_string (f_search F) of
           None \<Rightarrow> st2
         | Some x \<Rightarrow>
             (let searchTerm = ''%'' @ x @ ''%''
              in add_where
                   '' AND (n.title LIKE ? OR n.description LIKE ? OR n.location LIKE ?)''
                   [PStr searchTerm, PStr searchTerm, PStr searchTerm]
                   (SearchLike searchTerm) st2)))"
  by (auto simp: add_where_def Let_def split: option.splits)

lemma findAll_legacy_status:
  assumes "findAll_legacy E F = Inr st" and "f_status F = Some s" and "s \<noteq> []"
  shows "StatusEq s \<in> set (st_where st)"
proof -
  define st1 where
    "st1 = (case truthy_string (f_category_id F) of
              None \<Rightarrow> empty_statement select_head
            | Some c \<Rightarrow>
                add_where '' AND n.category_id = ?'' [PStr c] (CategoryEqRaw c)
                  (empty_statement select_head))"
  define st2 where
    "st2 = (case truthy_string (f_status F) of
              None \<Rightarrow> st1
            | Some x \<Rightarrow> add_where '' AND n.status = ?'' [PStr x] (StatusEq x) st1)"
  define st3 where
    "st3 = (case truthy_string (f_search F) of
              None \<Rightarrow> st2
            | Some x \<Rightarrow>
                (let searchTerm = ''%'' @ x @ ''%''
                 in add_where
                      '' AND (n.title LIKE ? OR n.description LIKE ? OR n.location LIKE ?)''
                      [PStr searchTerm, PStr searchTerm, PStr searchTerm]
                      (SearchLike searchTerm) st2))"
  have unfolded: "findAll_legacy E F
      = and_then (with_date_legacy E '' AND n.date_time >= ?'' DateTimeGe (f_date_from F) st3) (\<lambda>st4.
        and_then (with_date_legacy E '' AND n.date_time <= ?'' DateTimeLe (f_date_to F) st4) (\<lambda>st5.
        Inr (with_pagination_legacy F
               (add_text '' ORDER BY n.date_time DESC, n.created_at DESC'' st5))))"
    unfolding findAll_legacy_def st1_def st2_def st3_def by (simp only: Let_def)
  from assms(1) obtain st4 st5 where
    a: "with_date_legacy E '' AND n.date_time >= ?'' DateTimeGe (f_date_from F) st3 = Inr st4"
    and b: "with_date_legacy E '' AND n.date_time <= ?'' DateTimeLe (f_date_to F) st4 = Inr st5"
    and c: "st = with_pagination_legacy F
                  (add_text '' ORDER BY n.date_time DESC, n.created_at DESC'' st5)"
    unfolding unfolded by (auto simp: and_then_def split: sum.splits)
  have "StatusEq s \<in> set (st_where st2)"
    unfolding st2_def using assms(2,3) by (rule with_status_legacy_where)
  then have "StatusEq s \<in> set (st_where st3)"
    unfolding st3_def using with_search_legacy_where by blast
  then have "StatusEq s \<in> set (st_where st4)"
    using with_date_legacy_where [OF a] by blast
  then have "StatusEq s \<in> set (st_where st5)"
    using with_date_legacy_where [OF b] by blast
  then show ?thesis
    by (simp add: c with_pagination_legacy_where add_text_def)
qed

lemma listing_status:
  assumes "f_status F = Some s" and "s \<noteq> []"
    and "fst (listing E db F page limit msg) = Response code ok m (ListData items pg)"
  shows "list_all (\<lambda>v. news_status (view_row v) = s) items"
proof (cases "findAll_legacy E F")
  case (Inl e)
  with assms(3) show ?thesis
    by (simp add: listing_def Let_def error_response_def)
next
  case (Inr st)
  with assms(3) have items: "items = map (view_of E db) (run_select E (news_rows db) st)"
    by (simp add: listing_def Let_def)
  have "StatusEq s \<in> set (st_where st)"
    using findAll_legacy_status [OF Inr assms(1,2)] .
  then show ?thesis
    unfolding items
    by (auto simp: list_all_iff view_row_view_of dest: selected_rows_status)
qed

lemma listing_calls_status:
  assumes "f_status F = Some s" and "s \<noteq> []"
    and "SelectCall st \<in> set (snd (listing E db F page limit msg))"
  shows "StatusEq s \<in> set (st_where st)"
proof (cases "findAll_legacy E F")
  case (Inl e)
  with assms(3) show ?thesis by (simp add: listing_def Let_def)
next
  case (Inr st')
  with assms(3) have "st = st'" by (auto simp: listing_def Let_def)
  then show ?thesis using findAll_legacy_status [OF Inr assms(1,2)] by simp
qed

lemma public_listing_ignores_status:
  "getActiveNewsAndEvents E db (q\<lparr>q_status := x\<rparr>) = getActiveNewsAndEvents E db q"
  by (simp add: getActiveNewsAndEvents_def Let_def)

lemma sample_inactive_item:
  "findById sample_db 2 = Some (sample_news 2 ''inactive'' None)
   \<and> news_status (sample_news 2 ''inactive'' None) \<noteq> ''active''"
  by code_simp

lemma sample_public_listing:
  "(case fst (getActiveNewsAndEvents local_env sample_db no_query) of
      Response code ok m (ListData items pg) \<Rightarrow> map (\<lambda>v. news_id (view_row v)) items = [1]
    | _ \<Rightarrow> False)"
  by code_simp

text \<open>
  C8. The public endpoints never return an item whose status is not \<open>active\<close>. The
  list handler sets the status filter to \<open>active\<close> whatever the query says: its answer
  does not depend on the \<open>status\<close> parameter, every listing statement it executes
  carries the condition \<open>status = 'active'\<close>, and every item of its answer is active.
  The handler by id answers 404 with no data for an item whose status is not
  \<open>active\<close>, and an item it does return is active.
\<close>

theorem public_never_inactive:
  "(\<forall>code ok m items pg.
      fst (getActiveNewsAndEvents E db q) = Response code ok m (ListData items pg) \<longrightarrow>
      list_all (\<lambda>v. news_status (view_row v) = ''active'') items)
   \<and> (\<forall>st. SelectCall st \<in> set (snd (getActiveNewsAndEvents E db q)) \<longrightarrow>
          StatusEq ''active'' \<in> set (st_where st))
   \<and> getActiveNewsAndEvents E db (q\<lparr>q_status := x\<rparr>) = getActiveNewsAndEvents E db q
   \<and> (\<forall>r. findById db i = Some r \<and> news_status r \<noteq> ''active'' \<longrightarrow>
          fst (getActiveNewsAndEventsById E db i)
          = Response 404 False ''News and events not found'' NoData)
   \<and> (\<forall>v. resp_data (fst (getActiveNewsAndEventsById E db i)) = ItemData v \<longrightarrow>
          news_status (view_row v) = ''active'')"
proof -
  let ?F = "\<lambda>limit offset.
     \<lparr>f_category_id = q_category_id q, f_status = Some ''active'', f_search = q_search q,
      f_date_from = q_date_from q, f_date_to = q_date_to q,
      f_limit = Some limit, f_offset = Some offset\<rparr>"
  have items: "list_all (\<lambda>v. news_status (view_row v) = ''active'') items"
    if "fst (getActiveNewsAndEvents E db q) = Response code ok m (ListData items pg)"
    for code ok m items pg
  proof -
    from that obtain page limit msg where
      "fst (listing E db (?F limit ((page - 1) * limit)) page limit msg)
       = Response code ok m (ListData items pg)"
      by (auto simp: getActiveNewsAndEvents_def Let_def split: if_splits)
    then show ?thesis
      using listing_status [of "?F limit ((page - 1) * limit)" "''active''"] by simp
  qed
  have calls: "StatusEq ''active'' \<in> set (st_where st)"
    if "SelectCall st \<in> set (snd (getActiveNewsAndEvents E db q))" for st
  proof -
    from that obtain page limit msg where
      "SelectCall st \<in> set (snd (listing E db (?F limit ((page - 1) * limit)) page limit msg))"
      by (auto simp: getActiveNewsAndEvents_def Let_def split: if_splits)
    then show ?thesis
      using listing_calls_status [of "?F limit ((page - 1) * limit)" "''active''"] by simp
  qed
  have hidden: "fst (getActiveNewsAndEventsById E db i)
                = Response 404 False ''News and events not found'' NoData"
    if "findById db i = Some r \<and> news_status r \<noteq> ''active''" for r
    using that by (simp add: getActiveNewsAndEventsById_def)
  have shown: "news_status (view_row v) = ''active''"
    if "resp_data (fst (getActiveNewsAndEventsById E db i)) = ItemData v" for v
    using that
    by (auto simp: getActiveNewsAndEventsById_def view_row_view_of
        split: option.splits if_splits)
  show ?thesis
    using items calls hidden shown public_listing_ignores_status by blast
qed

theorem public_never_inactive_witness:
  "fst (getActiveNewsAndEventsById local_env sample_db 2)
     = Response 404 False ''News and events not found'' NoData
   \<and> (\<exists>code ok m items pg.
         fst (getActiveNewsAndEvents local_env sample_db no_query)
           = Response code ok m (ListData items pg)
         \<and> map (\<lambda>v. news_id (view_row v)) items = [1]
         \<and> list_all (\<lambda>v. news_status (view_row v) = ''active'') items)"
proof -
  note t = public_never_inactive [where E = local_env and db = sample_db and q = no_query
      and i = 2]
  have a: "fst (getActiveNewsAndEventsById local_env sample_db 2)
     = Response 404 False ''News and events not found'' NoData"
    using t sample_inactive_item by blast
  obtain code ok m items pg where
    l: "fst (getActiveNewsAndEvents local_env sample_db no_query)
          = Response code ok m (ListData items pg)"
    and ids: "map (\<lambda>v. news_id (view_row v)) items = [1]"
    using sample_public_listing
    by (auto split: response.splits payload.splits)
  from t l have la: "list_all (\<lambda>v. news_status (view_row v) = ''active'') items"
    by blast
  have "\<exists>code ok m items pg.
         fst (getActiveNewsAndEvents local_env sample_db no_query)
           = Response code ok m (ListData items pg)
         \<and> map (\<lambda>v. news_id (view_row v)) items = [1]
         \<and> list_all (\<lambda>v. news_status (view_row v) = ''active'') items"
    apply (rule exI [of _ code], rule exI [of _ ok], rule exI [of _ m])
    apply (rule exI [of _ items], rule exI [of _ pg])
    using l ids la by simp
  with a show ?thesis by simp
qed

section \<open>What an update leaves alone\<close>

lemma update_keeps_images:
  "image_rows (snd (NewsAndEvents_update E db i u)) = image_rows db"
  "next_image_id (snd (NewsAndEvents_update E db i u)) = next_image_id db"
  "category_ids (snd (NewsAndEvents_update E db i u)) = category_ids db"
  by (auto simp: NewsAndEvents_update_def split: sum.splits)

lemma update_result_keeps_images:
  assumes "NewsAndEvents_update E db i u = (e, db')"
  shows "image_rows db' = image_rows db \<and> next_image_id db' = next_image_id db
         \<and> category_ids db' = category_ids db"
  using update_keeps_images [of E db i u] assms by simp

lemma deleteFile_cases:
  "snd (deleteFile E u ft fs) = fs
   \<or> (\<exists>name. deleteFile_target E u ft = Some (dir_of_type ft, name)
         \<and> snd (deleteFile E u ft fs) = removeAll (dir_of_type ft, name) fs)"
  by (auto simp: deleteFile_def deleteFile_target_def split: option.splits if_splits)

lemma basename_no_slash: "CHR ''/'' \<notin> set (basename p)"
  by (auto simp: basename_def dest: set_takeWhileD)

lemma stored_file_name_no_slash:
  assumes "stored_form u" and "deleteFile_target E u ft = Some (d, name)"
  shows "CHR ''/'' \<notin> set name"
proof -
  from assms(2) obtain s where u: "u = Some s" and e: "extractFilenameFromUrl E (Some s) = Some name"
    by (auto simp: deleteFile_target_def split: option.splits if_splits)
  from assms(1) u have "is_http_url s \<or> is_canonical_path s"
    by (simp add: stored_form_def)
  then show ?thesis
    using e basename_no_slash
    by (auto simp: extractFilenameFromUrl_def is_http_url_def split: option.splits if_splits)
qed

lemma cover_step_cases:
  "snd (cover_step E old req fs) = fs
   \<or> (\<exists>name. deleteFile_target E old Cover = Some (CoverImagesDir, name)
         \<and> snd (cover_step E old req fs) = removeAll (CoverImagesDir, name) fs)"
  using deleteFile_cases [of E old Cover fs]
  by (auto simp: cover_step_def dir_of_type_def Let_def split: list.splits cover_field.splits)

lemma handler_without_images:
  assumes "req_image_files req = []" and "b_images (req_body req) = ImagesUndefined"
  shows "image_rows (w_db (snd (updateNewsAndEvents E w req))) = image_rows (w_db w)"
    and "next_image_id (w_db (snd (updateNewsAndEvents E w req))) = next_image_id (w_db w)"
    and "w_files (snd (updateNewsAndEvents E w req)) = w_files w
         \<or> (\<exists>r. findById (w_db w) (req_id req) = Some r
               \<and> w_files (snd (updateNewsAndEvents E w req))
                 = snd (cover_step E (news_cover_image r) req (w_files w)))"
proof -
  have ri: "request_images E req = Inr (False, [])"
    using assms by (simp add: request_images_def)
  show "image_rows (w_db (snd (updateNewsAndEvents E w req))) = image_rows (w_db w)"
    using ri
    by (auto simp: updateNewsAndEvents_def Let_def
        split: option.splits prod.splits dest: update_result_keeps_images)
  show "next_image_id (w_db (snd (updateNewsAndEvents E w req))) = next_image_id (w_db w)"
    using ri
    by (auto simp: updateNewsAndEvents_def Let_def
        split: option.splits prod.splits dest: update_result_keeps_images)
  show "w_files (snd (updateNewsAndEvents E w req)) = w_files w
         \<or> (\<exists>r. findById (w_db w) (req_id req) = Some r
               \<and> w_files (snd (updateNewsAndEvents E w req))
                 = snd (cover_step E (news_cover_image r) req (w_files w)))"
    using ri
    by (auto simp: updateNewsAndEvents_def Let_def split: option.splits prod.splits)
qed

lemma getRelativePath_stored_form:
  assumes "ft \<noteq> OtherType"
  shows "stored_form (getRelativePath E v ft)"
proof (cases v)
  case None
  then show ?thesis by (simp add: getRelativePath_def stored_form_def)
next
  case (Some s)
  have c: "is_canonical_path (''/cover-images/'' @ basename s)"
    using startsWith_append [of "''/cover-images/''" "basename s"]
    by (simp add: is_canonical_path_def)
  have n: "is_canonical_path (''/news-images/'' @ basename s)"
    using startsWith_append [of "''/news-images/''" "basename s"]
    by (simp add: is_canonical_path_def)
  show ?thesis
    using assms Some c n matched_is_canonical(1)
    by (cases ft)
       (auto simp: getRelativePath_def stored_form_def split: option.splits if_splits)
qed

lemma removeAll_other_dir:
  "fst p \<noteq> d \<Longrightarrow> filter (\<lambda>q. fst q = d) (removeAll p fs) = filter (\<lambda>q. fst q = d) fs"
  by (induction fs) auto

lemma without_images_gallery:
  assumes "req_image_files req = []" and "b_images (req_body req) = ImagesUndefined"
  shows "gallery_untouched w (snd (updateNewsAndEvents E w req))"
    and "\<forall>p. p \<in> set (w_files w) \<and> p \<notin> set (w_files (snd (updateNewsAndEvents E w req)))
           \<longrightarrow> fst p = CoverImagesDir"
    and "\<forall>r. findById (w_db w) (req_id req) = Some r \<and> stored_form (news_cover_image r)
           \<longrightarrow> (\<forall>p. p \<in> set (w_files w)
                     \<and> p \<notin> set (w_files (snd (updateNewsAndEvents E w req)))
                   \<longrightarrow> CHR ''/'' \<notin> set (snd p))"
proof -
  let ?w' = "snd (updateNewsAndEvents E w req)"
  note h = handler_without_images [OF assms, of E w]
  have files: "w_files ?w' = w_files w
      \<or> (\<exists>r name. findById (w_db w) (req_id req) = Some r
            \<and> deleteFile_target E (news_cover_image r) Cover = Some (CoverImagesDir, name)
            \<and> w_files ?w' = removeAll (CoverImagesDir, name) (w_files w))"
    using h(3) cover_step_cases by metis
  show "gallery_untouched w ?w'"
    using h(1,2) files
    by (auto simp: gallery_untouched_def removeAll_other_dir)
  show "\<forall>p. p \<in> set (w_files w) \<and> p \<notin> set (w_files ?w') \<longrightarrow> fst p = CoverImagesDir"
    using files by auto
  show "\<forall>r. findById (w_db w) (req_id req) = Some r \<and> stored_form (news_cover_image r)
           \<longrightarrow> (\<forall>p. p \<in> set (w_files w) \<and> p \<notin> set (w_files ?w') \<longrightarrow> CHR ''/'' \<notin> set (snd p))"
    using files stored_file_name_no_slash by fastforce
qed

lemma gallery_untouched_refl: "gallery_untouched w w"
  by (simp add: gallery_untouched_def)

lemma put_cases:
  "put_news_and_events E w req
     = (Response 400 False ''Validation failed''
          (ValidationErrors (validateNewsUpdate E (req_body req))), w)
   \<or> put_news_and_events E w req
     = updateNewsAndEvents E w (req\<lparr>req_body := sanitized (req_body req)\<rparr>)"
  by (simp add: put_news_and_events_def Let_def)

lemma sanitized_keeps_images: "b_images (sanitized b) = b_images b"
  by (simp add: sanitized_def)

lemma sanitized_keeps_cover: "b_cover_image (sanitized b) = b_cover_image b"
  by (simp add: sanitized_def)

lemma sample_cover_removal:
  "(case put_news_and_events local_env sample_world
           (sample_request (no_body\<lparr>b_cover_image := CoverNull, b_title := Some ''New title''\<rparr>)) of
      (r, w') \<Rightarrow>
        resp_status r = 200
        \<and> w_files w' = [(NewsImagesDir, ''a.jpg''), (NewsImagesDir, ''b.jpg'')]
        \<and> map news_title (news_rows (w_db w')) = [''New title'', ''Opening''])"
  by code_simp

lemma sample_request_no_images:
  "req_image_files (sample_request (no_body\<lparr>b_cover_image := c, b_title := t\<rparr>)) = []"
  "b_images (req_body (sample_request (no_body\<lparr>b_cover_image := c, b_title := t\<rparr>)))
   = ImagesUndefined"
  by (simp_all add: sample_request_def no_body_def)

text \<open>
  C9. A PUT request with no uploaded image file and no \<open>images\<close> field leaves the
  image table as it is (no row inserted, none deleted) and unlinks no file of the
  gallery directory, through the handler alone and through the route with its
  validation. The only file that can go is one of the cover directory; for a stored
  cover of the form the handlers write, its name has no slash, so it lies in that
  directory itself.
\<close>

theorem update_without_images_keeps_gallery:
  assumes "req_image_files req = []" and "b_images (req_body req) = ImagesUndefined"
  shows "gallery_untouched w (snd (updateNewsAndEvents E w req))
       \<and> gallery_untouched w (snd (put_news_and_events E w req))
       \<and> (\<forall>p. p \<in> set (w_files w) \<and> p \<notin> set (w_files (snd (updateNewsAndEvents E w req)))
             \<longrightarrow> fst p = CoverImagesDir)
       \<and> (\<forall>r. findById (w_db w) (req_id req) = Some r \<and> stored_form (news_cover_image r)
             \<longrightarrow> (\<forall>p. p \<in> set (w_files w)
                       \<and> p \<notin> set (w_files (snd (updateNewsAndEvents E w req)))
                     \<longrightarrow> CHR ''/'' \<notin> set (snd p)))"
proof -
  let ?req' = "req\<lparr>req_body := sanitized (req_body req)\<rparr>"
  have a': "req_image_files ?req' = []" "b_images (req_body ?req') = ImagesUndefined"
    using assms by (simp_all add: sanitized_keeps_images)
  have "gallery_untouched w (snd (put_news_and_events E w req))"
    using put_cases [of E w req] without_images_gallery(1) [OF a', of w E]
      gallery_untouched_refl [of w]
    by auto
  then show ?thesis
    using without_images_gallery [OF assms, of w E] by blast
qed

theorem update_without_images_keeps_gallery_witness:
  "gallery_untouched sample_world
     (snd (put_news_and_events local_env sample_world
        (sample_request (no_body\<lparr>b_cover_image := CoverNull, b_title := Some ''New title''\<rparr>))))
   \<and> resp_status (fst (put_news_and_events local_env sample_world
        (sample_request (no_body\<lparr>b_cover_image := CoverNull, b_title := Some ''New title''\<rparr>))))
       = 200
   \<and> w_files (snd (put_news_and_events local_env sample_world
        (sample_request (no_body\<lparr>b_cover_image := CoverNull, b_title := Some ''New title''\<rparr>))))
       = [(NewsImagesDir, ''a.jpg''), (NewsImagesDir, ''b.jpg'')]"
  using update_without_images_keeps_gallery
          [OF sample_request_no_images, where w = sample_world and E = local_env]
        sample_cover_removal
  by (simp split: prod.splits)

section \<open>The shape of the update handler's result\<close>

lemma update_error_keeps_database:
  "NewsAndEvents_update E db i u = (Some e, db') \<Longrightarrow> db' = db"
  by (auto simp: NewsAndEvents_update_def split: sum.splits if_splits)

lemma update_success_form:
  assumes "NewsAndEvents_update E db i u = (None, db2)"
  shows "(db2 = db \<and> no_fields u)
         \<or> (\<exists>fd. db2 = db\<lparr>news_rows :=
                        map (\<lambda>r. if news_id r = i then set_fields u fd r else r) (news_rows db)\<rparr>)"
proof (cases "converted_date_time E (u_date_time u)")
  case (Inl msg)
  with assms show ?thesis by (simp add: NewsAndEvents_update_def)
next
  case (Inr fd)
  with assms have "(db2 = db \<and> no_fields u)
      \<or> db2 = db\<lparr>news_rows :=
                   map (\<lambda>r. if news_id r = i then set_fields u fd r else r) (news_rows db)\<rparr>"
    by (auto simp: NewsAndEvents_update_def split: if_splits)
  then show ?thesis by blast
qed

lemma handler_result:
  fixes E w req
  defines "i \<equiv> req_id req"
  defines "w' \<equiv> snd (updateNewsAndEvents E w req)"
  shows "w' = w
   \<or> (\<exists>r cover fs1.
        findById (w_db w) i = Some r
        \<and> cover_step E (news_cover_image r) req (w_files w) = (cover, fs1)
        \<and> (w' = w\<lparr>w_files := fs1\<rparr>
           \<or> (\<exists>sh urls db2 u.
                 request_images E req = Inr (sh, urls)
                 \<and> u_cover_image u = cover
                 \<and> NewsAndEvents_update E (w_db w) i u = (None, db2)
                 \<and> w' = (if sh
                         then snd (smart_update E i (findByNewsAndEventsId (w_db w) i) urls
                                     (w\<lparr>w_files := fs1, w_db := db2\<rparr>))
                         else w\<lparr>w_files := fs1, w_db := db2\<rparr>))))"
proof (cases "findById (w_db w) i")
  case None
  then show ?thesis by (simp add: w'_def i_def updateNewsAndEvents_def)
next
  case (Some r)
  obtain cover fs1 where cs: "cover_step E (news_cover_image r) req (w_files w) = (cover, fs1)"
    by (cases "cover_step E (news_cover_image r) req (w_files w)")
  let ?u = "\<lparr>u_category_id = b_category_id (req_body req),
             u_title = b_title (req_body req),
             u_description = b_description (req_body req),
             u_location = b_location (req_body req),
             u_cover_image = cover,
             u_date_time = b_date_time (req_body req),
             u_status = b_status (req_body req)\<rparr>"
  obtain e db2 where up: "NewsAndEvents_update E (w_db w) i ?u = (e, db2)"
    by (cases "NewsAndEvents_update E (w_db w) i ?u")
  let ?missing = "case b_category_id (req_body req) of
                    None \<Rightarrow> False
                  | Some c \<Rightarrow> c \<noteq> 0 \<and> c \<notin> set (category_ids (w_db w))"
  show ?thesis
  proof (cases ?missing)
    case True
    with Some show ?thesis by (simp add: w'_def i_def updateNewsAndEvents_def Let_def)
  next
  case present: False
  show ?thesis
  proof (cases "request_images E req")
    case (Inl err)
    with Some cs present show ?thesis
      by (auto simp: w'_def i_def updateNewsAndEvents_def Let_def)
  next
    case (Inr p)
    obtain sh urls where p: "p = (sh, urls)" by (cases p)
    show ?thesis
    proof (cases e)
      case (Some err)
      with up have "db2 = w_db w" using update_error_keeps_database by blast
      with Some up Inr p cs present \<open>findById (w_db w) i = Some r\<close> show ?thesis
        by (auto simp: w'_def i_def updateNewsAndEvents_def Let_def)
    next
      case None
      have "w' = (if sh
                  then snd (smart_update E i (findByNewsAndEventsId (w_db w) i) urls
                              (w\<lparr>w_files := fs1, w_db := db2\<rparr>))
                  else w\<lparr>w_files := fs1, w_db := db2\<rparr>)"
        using None up Inr p cs present \<open>findById (w_db w) i = Some r\<close>
        by (auto simp: w'_def i_def updateNewsAndEvents_def Let_def
            split: option.splits prod.splits)
      moreover have "u_cover_image ?u = cover" by simp
      ultimately show ?thesis
        using None up Inr p cs \<open>findById (w_db w) i = Some r\<close> by blast
    qed
  qed
  qed
qed

section \<open>The cover image of an update\<close>

lemma deleteFiles_other_dir:
  "d \<noteq> dir_of_type ft \<Longrightarrow>
   filter (\<lambda>q. fst q = d) (deleteFiles E urls ft fs) = filter (\<lambda>q. fst q = d) fs"
proof (induction urls arbitrary: fs)
  case Nil
  then show ?case by (simp add: deleteFiles_def)
next
  case (Cons u urls)
  have step: "filter (\<lambda>q. fst q = d) (snd (deleteFile E (Some u) ft fs))
              = filter (\<lambda>q. fst q = d) fs"
    using deleteFile_cases [of E "Some u" ft fs] Cons.prems
    by (auto simp: removeAll_other_dir)
  have "deleteFiles E (u # urls) ft fs = deleteFiles E urls ft (snd (deleteFile E (Some u) ft fs))"
    by (simp add: deleteFiles_def)
  then show ?case using Cons.IH [OF Cons.prems] step by simp
qed

lemma smart_update_files:
  "w_files (snd (smart_update E i old urls w)) = w_files w
   \<or> w_files (snd (smart_update E i old urls w))
     = deleteFiles E (images_to_delete (map image_url old) urls) News (w_files w)"
  by (auto simp: smart_update_def Let_def split: prod.splits option.splits)

lemma smart_update_cover_files:
  "filter (\<lambda>q. fst q = CoverImagesDir) (w_files (snd (smart_update E i old urls w)))
   = filter (\<lambda>q. fst q = CoverImagesDir) (w_files w)"
  using smart_update_files [of E i old urls w]
    deleteFiles_other_dir [of CoverImagesDir News E]
  by (auto simp: dir_of_type_def)

lemma createMultiple_from_news_rows:
  "news_rows (snd (createMultiple_from n k imgs db)) = news_rows db"
  by (induction n k imgs db rule: createMultiple_from.induct) (simp_all add: create_image_def)

lemma delete_rows_news_rows: "news_rows (delete_rows old dels db) = news_rows db"
proof -
  have "news_rows (fold f dels db) = news_rows db"
    if "\<And>u d. news_rows (f u d) = news_rows d" for f :: "string \<Rightarrow> database \<Rightarrow> database"
    using that by (induction dels arbitrary: db) simp_all
  then show ?thesis
    unfolding delete_rows_def
    by (rule meta_mp [rotated]) (auto simp: delete_image_def split: option.splits)
qed

lemma smart_update_news_rows:
  "news_rows (w_db (snd (smart_update E i old urls w))) = news_rows (w_db w)"
proof -
  have c: "news_rows (snd (createMultiple i imgs db)) = news_rows db" for imgs db
    by (simp add: createMultiple_def createMultiple_from_news_rows)
  have c': "createMultiple i imgs db = (e, db') \<Longrightarrow> news_rows db' = news_rows db" for imgs db e db'
    using c [of imgs db] by simp
  show ?thesis
    by (auto simp: smart_update_def Let_def delete_rows_news_rows deleteByNewsAndEventsId_def
        split: prod.splits option.splits if_splits dest!: c')
qed

lemma find_map_same_id:
  assumes "\<And>x. news_id (f x) = news_id x"
  shows "find (\<lambda>r. news_id r = i) (map f xs) = map_option f (find (\<lambda>r. news_id r = i) xs)"
  using assms by (induction xs) auto

lemma find_Some_props: "find P xs = Some x \<Longrightarrow> P x \<and> x \<in> set xs"
  by (induction xs) (auto split: if_splits)

lemma update_sets_cover:
  assumes "NewsAndEvents_update E db i u = (None, db2)" and "findById db i = Some r"
    and "findById db2 i = Some r'"
  shows "news_cover_image r' = cover_column (u_cover_image u) (news_cover_image r)"
proof -
  from update_success_form [OF assms(1)]
  show ?thesis
  proof
    assume "db2 = db \<and> no_fields u"
    with assms(2,3) show ?thesis by (simp add: cover_column_def no_fields_def)
  next
    assume "\<exists>fd. db2 = db\<lparr>news_rows :=
                map (\<lambda>r. if news_id r = i then set_fields u fd r else r) (news_rows db)\<rparr>"
    then obtain fd where
      db2: "db2 = db\<lparr>news_rows :=
                map (\<lambda>r. if news_id r = i then set_fields u fd r else r) (news_rows db)\<rparr>"
      by blast
    let ?f = "\<lambda>r. if news_id r = i then set_fields u fd r else r"
    have ids: "news_id (?f x) = news_id x" for x
      by (simp add: set_fields_def)
    have "findById db2 i = map_option ?f (findById db i)"
      unfolding findById_def db2 using find_map_same_id [of ?f i "news_rows db"] ids
      by simp
    with assms(2,3) have "r' = ?f r" by simp
    moreover have "news_id r = i"
      using assms(2) find_Some_props [of "\<lambda>x. news_id x = i" "news_rows db" r]
      by (simp add: findById_def)
    ultimately show ?thesis by (simp add: set_fields_def)
  qed
qed

lemma canonical_has_no_url_shape: "is_canonical_path s \<Longrightarrow> \<not> url_shape s"
  by (cases s)
     (auto simp: is_canonical_path_def url_shape_def stripPrefix_def startsWith_Cons
       split: option.splits)

lemma canonical_cover_refused:
  "is_canonical_path s \<Longrightarrow> \<not> valid_cover_image (CoverString s)"
  using canonical_has_no_url_shape canonical_nonempty
  by (simp add: valid_cover_image_def)

lemma unchanged_cover_step:
  assumes "req_cover_files req = []" and "b_cover_image (req_body req) = CoverString s"
    and "getRelativePath E (Some s) Cover = Some c"
  shows "cover_step E (Some c) req fs = (CoverString c, fs)"
proof -
  from assms(3) have "s \<noteq> []" by (auto simp: getRelativePath_def)
  with assms show ?thesis by (simp add: cover_step_def cover_of_def)
qed

lemma resubmitted_cover_handler:
  assumes r: "findById (w_db w) (req_id req) = Some r" and c: "news_cover_image r = Some c"
    and nf: "req_cover_files req = []" and b: "b_cover_image (req_body req) = CoverString s"
    and g: "getRelativePath E (Some s) Cover = Some c"
  shows "filter (\<lambda>q. fst q = CoverImagesDir) (w_files (snd (updateNewsAndEvents E w req)))
           = filter (\<lambda>q. fst q = CoverImagesDir) (w_files w)"
    and "\<exists>r'. findById (w_db (snd (updateNewsAndEvents E w req))) (req_id req) = Some r'
              \<and> news_cover_image r' = Some c"
proof -
  let ?w' = "snd (updateNewsAndEvents E w req)"
  let ?i = "req_id req"
  note cs = unchanged_cover_step [OF nf b g, of "w_files w"]
  have fixed: "w\<lparr>w_files := w_files w\<rparr> = w" by simp
  from handler_result [of E w req] r c cs
  consider "?w' = w"
    | sh urls db2 u where "u_cover_image u = CoverString c"
        "NewsAndEvents_update E (w_db w) ?i u = (None, db2)"
        "?w' = (if sh
                then snd (smart_update E ?i (findByNewsAndEventsId (w_db w) ?i) urls
                            (w\<lparr>w_files := w_files w, w_db := db2\<rparr>))
                else w\<lparr>w_files := w_files w, w_db := db2\<rparr>)"
    by (auto simp: fixed)
  then have "filter (\<lambda>q. fst q = CoverImagesDir) (w_files ?w')
               = filter (\<lambda>q. fst q = CoverImagesDir) (w_files w)
             \<and> (\<exists>r'. findById (w_db ?w') ?i = Some r' \<and> news_cover_image r' = Some c)"
  proof cases
    case 1
    with r c show ?thesis by simp
  next
    case (2 sh urls db2 u)
    have rows: "news_rows (w_db ?w') = news_rows db2"
      using 2(3) by (simp add: smart_update_news_rows)
    have files: "filter (\<lambda>q. fst q = CoverImagesDir) (w_files ?w')
                 = filter (\<lambda>q. fst q = CoverImagesDir) (w_files w)"
      using 2(3) by (simp add: smart_update_cover_files)
    have same: "findById (w_db ?w') ?i = findById db2 ?i"
      using rows by (simp add: findById_def)
    have ex: "\<exists>r'. findById db2 ?i = Some r'"
    proof -
      from update_success_form [OF 2(2)]
      have "map news_id (news_rows db2) = map news_id (news_rows (w_db w))"
        by (auto simp: set_fields_def)
      moreover have "?i \<in> set (map news_id (news_rows (w_db w)))"
      proof -
        from r have "news_id r = ?i \<and> r \<in> set (news_rows (w_db w))"
          using find_Some_props [of "\<lambda>x. news_id x = ?i" "news_rows (w_db w)" r]
          by (simp add: findById_def)
        then have "news_id r \<in> news_id ` set (news_rows (w_db w))" by blast
        then show ?thesis
          using \<open>news_id r = ?i \<and> r \<in> set (news_rows (w_db w))\<close> by simp
      qed
      ultimately have "?i \<in> set (map news_id (news_rows db2))" by simp
      then show ?thesis
        by (cases "findById db2 ?i") (auto simp: findById_def find_None_iff)
    qed
    then obtain r' where r': "findById db2 ?i = Some r'" by blast
    have "news_cover_image r' = Some c"
      using update_sets_cover [OF 2(2) r r'] 2(1) by (simp add: cover_column_def)
    with r' same files show ?thesis by simp
  qed
  then show "filter (\<lambda>q. fst q = CoverImagesDir) (w_files ?w')
           = filter (\<lambda>q. fst q = CoverImagesDir) (w_files w)"
    and "\<exists>r'. findById (w_db ?w') ?i = Some r' \<and> news_cover_image r' = Some c"
    by simp_all
qed

lemma cover_error_listed:
  "\<not> valid_cover_image (b_cover_image b) \<Longrightarrow> ''cover_image'' \<in> set (validateNewsUpdate E b)"
  by (simp add: validateNewsUpdate_def)

lemma sample_stored_cover:
  "findById (w_db sample_world) 1 = Some (sample_news 1 ''active'' (Some ''/cover-images/cover-1.jpg''))
   \<and> news_cover_image (sample_news 1 ''active'' (Some ''/cover-images/cover-1.jpg''))
       = Some ''/cover-images/cover-1.jpg''"
  by code_simp

lemma sample_cover_url_normalised:
  "getRelativePath local_env
     (Some ''http://localhost:3000/public/uploads/cover-images/cover-1.jpg'') Cover
   = Some ''/cover-images/cover-1.jpg''"
  by code_simp

lemma sample_cover_url_valid:
  "validateNewsUpdate local_env
     (no_body\<lparr>b_cover_image :=
        CoverString ''http://localhost:3000/public/uploads/cover-images/cover-1.jpg''\<rparr>) = []"
  by code_simp

lemma sample_cover_request:
  "req_id (sample_request (no_body\<lparr>b_cover_image := v\<rparr>)) = 1"
  "req_cover_files (sample_request (no_body\<lparr>b_cover_image := v\<rparr>)) = []"
  "b_cover_image (req_body (sample_request (no_body\<lparr>b_cover_image := v\<rparr>))) = v"
  "req_body (sample_request (no_body\<lparr>b_cover_image := v\<rparr>)) = no_body\<lparr>b_cover_image := v\<rparr>"
  by (simp_all add: sample_request_def)

lemma sample_cover_files:
  "filter (\<lambda>q. fst q = CoverImagesDir) (w_files sample_world) = [(CoverImagesDir, ''cover-1.jpg'')]"
  by code_simp

text \<open>
  The canonical path that the service generated and returns for a cover image does
  not pass the validation of the update route when it is sent back: the answer is
  400 and the handler does not run.
\<close>

theorem resubmitted_cover_path_refused_counterexample:
  "news_cover_image (sample_news 1 ''active'' (Some ''/cover-images/cover-1.jpg''))
     = Some ''/cover-images/cover-1.jpg''
   \<and> findById (w_db sample_world) 1
     = Some (sample_news 1 ''active'' (Some ''/cover-images/cover-1.jpg''))
   \<and> put_news_and_events local_env sample_world
       (sample_request (no_body\<lparr>b_cover_image := CoverString ''/cover-images/cover-1.jpg''\<rparr>))
     = (Response 400 False ''Validation failed'' (ValidationErrors [''cover_image'']), sample_world)"
  by code_simp

text \<open>
  C6, as amended. Let the stored cover of an item be \<open>c\<close>, and let an update carry no
  cover file and a \<open>cover_image\<close> value that normalises to \<open>c\<close>. If the value is the
  canonical path itself, the route refuses the request with 400 at the validation
  and changes nothing. If the request passes the validation (the value is then an
  absolute http(s) URL of at most 500 characters), and whenever the handler is run
  on such a value, the cover image counts as unchanged: the cover step deletes no
  file, no file of the cover directory is deleted by the update, and the stored
  cover is \<open>c\<close> afterwards.
\<close>

theorem resubmitted_cover_unchanged:
  assumes "findById (w_db w) (req_id req) = Some r" and "news_cover_image r = Some c"
    and "req_cover_files req = []" and "b_cover_image (req_body req) = CoverString s"
    and "getRelativePath E (Some s) Cover = Some c"
  shows "(is_canonical_path s \<longrightarrow>
            put_news_and_events E w req
            = (Response 400 False ''Validation failed''
                 (ValidationErrors (validateNewsUpdate E (req_body req))), w)
            \<and> ''cover_image'' \<in> set (validateNewsUpdate E (req_body req)))
       \<and> cover_step E (Some c) req (w_files w) = (CoverString c, w_files w)
       \<and> filter (\<lambda>q. fst q = CoverImagesDir) (w_files (snd (updateNewsAndEvents E w req)))
         = filter (\<lambda>q. fst q = CoverImagesDir) (w_files w)
       \<and> (\<exists>r'. findById (w_db (snd (updateNewsAndEvents E w req))) (req_id req) = Some r'
                \<and> news_cover_image r' = Some c)
       \<and> (validateNewsUpdate E (req_body req) = [] \<longrightarrow>
            filter (\<lambda>q. fst q = CoverImagesDir) (w_files (snd (put_news_and_events E w req)))
            = filter (\<lambda>q. fst q = CoverImagesDir) (w_files w)
            \<and> (\<exists>r'. findById (w_db (snd (put_news_and_events E w req))) (req_id req) = Some r'
                     \<and> news_cover_image r' = Some c))"
proof -
  let ?req' = "req\<lparr>req_body := sanitized (req_body req)\<rparr>"
  have refused: "put_news_and_events E w req
            = (Response 400 False ''Validation failed''
                 (ValidationErrors (validateNewsUpdate E (req_body req))), w)
            \<and> ''cover_image'' \<in> set (validateNewsUpdate E (req_body req))"
    if "is_canonical_path s"
  proof -
    from that assms(4) have "''cover_image'' \<in> set (validateNewsUpdate E (req_body req))"
      using canonical_cover_refused cover_error_listed by simp
    moreover from this have "validateNewsUpdate E (req_body req) \<noteq> []" by auto
    ultimately show ?thesis by (simp add: put_news_and_events_def Let_def)
  qed
  have passed: "put_news_and_events E w req = updateNewsAndEvents E w ?req'"
    if "validateNewsUpdate E (req_body req) = []"
    using that by (simp add: put_news_and_events_def Let_def)
  have a': "findById (w_db w) (req_id ?req') = Some r" "req_cover_files ?req' = []"
    "b_cover_image (req_body ?req') = CoverString s"
    using assms by (simp_all add: sanitized_keeps_cover)
  note h = resubmitted_cover_handler [OF assms]
  note h' = resubmitted_cover_handler [OF a'(1) assms(2) a'(2,3) assms(5)]
  show ?thesis
    using refused passed h h' unchanged_cover_step [OF assms(3,4,5), of "w_files w"]
    by simp
qed

theorem resubmitted_cover_unchanged_witness:
  "filter (\<lambda>q. fst q = CoverImagesDir)
     (w_files (snd (put_news_and_events local_env sample_world
        (sample_request (no_body\<lparr>b_cover_image :=
           CoverString ''http://localhost:3000/public/uploads/cover-images/cover-1.jpg''\<rparr>)))))
   = [(CoverImagesDir, ''cover-1.jpg'')]
   \<and> (\<exists>r'. findById (w_db (snd (put_news_and_events local_env sample_world
        (sample_request (no_body\<lparr>b_cover_image :=
           CoverString ''http://localhost:3000/public/uploads/cover-images/cover-1.jpg''\<rparr>))))) 1
          = Some r'
        \<and> news_cover_image r' = Some ''/cover-images/cover-1.jpg'')"
proof -
  let ?req = "sample_request (no_body\<lparr>b_cover_image :=
           CoverString ''http://localhost:3000/public/uploads/cover-images/cover-1.jpg''\<rparr>)"
  have r: "findById (w_db sample_world) (req_id ?req)
           = Some (sample_news 1 ''active'' (Some ''/cover-images/cover-1.jpg''))"
    using sample_stored_cover by (simp add: sample_cover_request)
  have c: "news_cover_image (sample_news 1 ''active'' (Some ''/cover-images/cover-1.jpg''))
           = Some ''/cover-images/cover-1.jpg''"
    using sample_stored_cover by simp
  have v: "validateNewsUpdate local_env (req_body ?req) = []"
    using sample_cover_url_valid by (simp add: sample_cover_request)
  from resubmitted_cover_unchanged
         [OF r c sample_cover_request(2) sample_cover_request(3) sample_cover_url_normalised]
       v sample_cover_files
  show ?thesis by (simp add: sample_cover_request)
qed

section \<open>The same image list again\<close>

lemma same_set_nothing_to_do:
  assumes "set imageUrls = Some ` set (map image_url oldImages)"
  shows "images_to_delete (map image_url oldImages) imageUrls = []"
    and "images_to_add (map image_url oldImages) imageUrls = []"
    and "smart_update E i oldImages imageUrls w = (None, w)"
proof -
  show d: "images_to_delete (map image_url oldImages) imageUrls = []"
    using assms by (auto simp: images_to_delete_def filter_empty_conv)
  show a: "images_to_add (map image_url oldImages) imageUrls = []"
    using assms by (auto simp: images_to_add_def filter_empty_conv)
  have e: "imageUrls = [] \<Longrightarrow> map image_url oldImages = []"
    using assms by auto
  show "smart_update E i oldImages imageUrls w = (None, w)"
    using e by (auto simp: smart_update_def Let_def d a)
qed

lemma handler_same_set:
  assumes ri: "request_images E req = Inr (True, imageUrls)"
    and same: "set imageUrls
               = Some ` set (map image_url (findByNewsAndEventsId (w_db w) (req_id req)))"
  shows "gallery_untouched w (snd (updateNewsAndEvents E w req))"
proof -
  let ?w' = "snd (updateNewsAndEvents E w req)"
  let ?i = "req_id req"
  have cover_only: "gallery_untouched w (w\<lparr>w_files := fs1\<rparr>)"
    if "cover_step E old req (w_files w) = (cover, fs1)" for old cover fs1
    using cover_step_cases [of E old req "w_files w"] that
    by (auto simp: gallery_untouched_def removeAll_other_dir)
  from handler_result [of E w req] show ?thesis
  proof (elim disjE exE conjE)
    assume "?w' = w"
    then show ?thesis by (simp add: gallery_untouched_refl)
  next
    fix r cover fs1
    assume "cover_step E (news_cover_image r) req (w_files w) = (cover, fs1)"
      and "?w' = w\<lparr>w_files := fs1\<rparr>"
    then show ?thesis using cover_only by simp
  next
    fix r cover fs1 sh urls db2 u
    assume cs: "cover_step E (news_cover_image r) req (w_files w) = (cover, fs1)"
      and r2: "request_images E req = Inr (sh, urls)"
      and up: "NewsAndEvents_update E (w_db w) ?i u = (None, db2)"
      and w': "?w' = (if sh
                then snd (smart_update E ?i (findByNewsAndEventsId (w_db w) ?i) urls
                            (w\<lparr>w_files := fs1, w_db := db2\<rparr>))
                else w\<lparr>w_files := fs1, w_db := db2\<rparr>)"
    from r2 ri have "sh" "urls = imageUrls" by simp_all
    then have "?w' = w\<lparr>w_files := fs1, w_db := db2\<rparr>"
      using w' same_set_nothing_to_do(3) [OF same] by simp
    moreover have "image_rows db2 = image_rows (w_db w) \<and> next_image_id db2 = next_image_id (w_db w)"
      using update_result_keeps_images [OF up] by simp
    ultimately show ?thesis
      using cover_only [OF cs] by (simp add: gallery_untouched_def)
  qed
qed

lemma request_images_sanitized:
  "request_images E (req\<lparr>req_body := sanitized (req_body req)\<rparr>) = request_images E req"
  by (simp add: request_images_def sanitized_keeps_images)

lemma sample_same_list:
  "request_images local_env
     (sample_request (no_body\<lparr>b_images := ImagesArray
        [''/news-images/a.jpg'', ''http://localhost:3000/public/uploads/news-images/b.jpg'']\<rparr>))
   = Inr (True, [Some ''/news-images/a.jpg'', Some ''/news-images/b.jpg''])"
  by code_simp

lemma sample_old_images:
  "map image_url (findByNewsAndEventsId (w_db sample_world) 1)
   = [''/news-images/a.jpg'', ''/news-images/b.jpg'']"
  by code_simp

lemma sample_same_list_accepted:
  "resp_status (fst (put_news_and_events local_env sample_world
     (sample_request (no_body\<lparr>b_images := ImagesArray
        [''/news-images/a.jpg'', ''http://localhost:3000/public/uploads/news-images/b.jpg'']\<rparr>))))
   = 200"
  by code_simp

lemma sample_images_request_id: "req_id (sample_request b) = 1"
  by (simp add: sample_request_def)

text \<open>
  C5. When the image URLs stored for an item are, as a set, the canonical form of
  the list that an update supplies, the reconciliation finds nothing to delete and
  nothing to add and returns the database and the file system as they were; the
  update handler, alone or behind the validation, then leaves the image table and
  the files of the gallery directory untouched.
\<close>

theorem same_image_list_again:
  assumes "set imageUrls
           = Some ` set (map image_url (findByNewsAndEventsId (w_db w) (req_id req)))"
  shows "images_to_delete (map image_url (findByNewsAndEventsId (w_db w) (req_id req))) imageUrls = []
       \<and> images_to_add (map image_url (findByNewsAndEventsId (w_db w) (req_id req))) imageUrls = []
       \<and> smart_update E (req_id req) (findByNewsAndEventsId (w_db w) (req_id req)) imageUrls w2
         = (None, w2)
       \<and> (request_images E req = Inr (True, imageUrls) \<longrightarrow>
            gallery_untouched w (snd (updateNewsAndEvents E w req))
            \<and> gallery_untouched w (snd (put_news_and_events E w req)))"
proof -
  let ?req' = "req\<lparr>req_body := sanitized (req_body req)\<rparr>"
  have same': "set imageUrls
           = Some ` set (map image_url (findByNewsAndEventsId (w_db w) (req_id ?req')))"
    using assms by simp
  have handler: "gallery_untouched w (snd (updateNewsAndEvents E w req))"
    and route: "gallery_untouched w (snd (put_news_and_events E w req))"
    if ri: "request_images E req = Inr (True, imageUrls)"
  proof -
    show "gallery_untouched w (snd (updateNewsAndEvents E w req))"
      using handler_same_set [OF ri assms] .
    have "gallery_untouched w (snd (updateNewsAndEvents E w ?req'))"
      using handler_same_set [OF _ same', of E] ri request_images_sanitized [of E req] by simp
    then show "gallery_untouched w (snd (put_news_and_events E w req))"
      using put_cases [of E w req] gallery_untouched_refl [of w] by auto
  qed
  show ?thesis
    using same_set_nothing_to_do [OF assms] handler route by simp
qed

theorem same_image_list_again_witness:
  "smart_update local_env 1 (findByNewsAndEventsId (w_db sample_world) 1)
     [Some ''/news-images/a.jpg'', Some ''/news-images/b.jpg''] sample_world
   = (None, sample_world)
   \<and> gallery_untouched sample_world
       (snd (put_news_and_events local_env sample_world
          (sample_request (no_body\<lparr>b_images := ImagesArray
             [''/news-images/a.jpg'',
              ''http://localhost:3000/public/uploads/news-images/b.jpg'']\<rparr>))))
   \<and> resp_status (fst (put_news_and_events local_env sample_world
          (sample_request (no_body\<lparr>b_images := ImagesArray
             [''/news-images/a.jpg'',
              ''http://localhost:3000/public/uploads/news-images/b.jpg'']\<rparr>))))
       = 200"
proof -
  let ?req = "sample_request (no_body\<lparr>b_images := ImagesArray
             [''/news-images/a.jpg'',
              ''http://localhost:3000/public/uploads/news-images/b.jpg'']\<rparr>)"
  have same: "set [Some ''/news-images/a.jpg'', Some ''/news-images/b.jpg'']
              = Some ` set (map image_url (findByNewsAndEventsId (w_db sample_world) (req_id ?req)))"
    unfolding sample_images_request_id sample_old_images by simp
  from same_image_list_again [OF same, where E = local_env and ?w2.0 = sample_world]
       sample_same_list sample_same_list_accepted
  show ?thesis by (simp add: sample_images_request_id)
qed

section \<open>Reconciliation of the image set\<close>

























text \<open>
  A cover value that the validation of the update route lets through is absent,
  \<open>null\<close>, empty, or an http(s) URL of at most 500 characters.
\<close>

lemma accepted_cover_is_url:
  "valid_cover_image (CoverString s) \<Longrightarrow> s \<noteq> [] \<Longrightarrow> url_shape s \<and> length s \<le> 500"
  by (simp add: valid_cover_image_def split: if_splits)

end
